theory Spec2Isabelle
  imports Main "HOL-Library.Finite_Map"
begin

section \<open>JavaScript string primitives used by the worker\<close>

text \<open>
  Strings are character lists. Offsets, lengths and line numbers that the worker computes
  by subtraction are JavaScript numbers and are kept as \<open>int\<close>; offsets that index a
  string are \<open>nat\<close>.
\<close>

definition LF :: char where
  "LF = CHR 0x0A"

definition CR :: char where
  "CR = CHR 0x0D"

fun startsWith :: "string \<Rightarrow> string \<Rightarrow> bool" where
  "startsWith [] s = True"
| "startsWith (p # ps) [] = False"
| "startsWith (p # ps) (c # cs) = (p = c \<and> startsWith ps cs)"

text \<open>\<open>indexOfFrom p s i\<close> is \<open>s.indexOf(p)\<close> where the head of \<open>s\<close> sits at offset \<open>i\<close>;
  the result is \<open>-1\<close> when \<open>p\<close> does not occur.\<close>

fun indexOfFrom :: "string \<Rightarrow> string \<Rightarrow> nat \<Rightarrow> int" where
  "indexOfFrom p [] i = (if p = [] then int i else -1)"
| "indexOfFrom p (c # cs) i =
     (if startsWith p (c # cs) then int i else indexOfFrom p cs (Suc i))"

definition indexOf :: "string \<Rightarrow> string \<Rightarrow> int" where
  "indexOf s p = indexOfFrom p s 0"

fun lastIndexOfFrom :: "string \<Rightarrow> string \<Rightarrow> nat \<Rightarrow> int" where
  "lastIndexOfFrom p [] i = (if p = [] then int i else -1)"
| "lastIndexOfFrom p (c # cs) i =
     (let later = lastIndexOfFrom p cs (Suc i)
      in if 0 \<le> later then later
         else if startsWith p (c # cs) then int i else -1)"

definition lastIndexOf :: "string \<Rightarrow> string \<Rightarrow> int" where
  "lastIndexOf s p = lastIndexOfFrom p s 0"

text \<open>
  \<open>toLowerCase\<close>. A character is a code unit below 256: the letters A to Z and the
  capital letters of Latin-1 (192 to 222, without the multiplication sign 215) have their
  small letter 32 places up; every other character is left as it is.
\<close>

definition toLowerChar :: "char \<Rightarrow> char" where
  "toLowerChar c =
     (let n = (of_char c :: nat)
      in if (65 \<le> n \<and> n \<le> 90) \<or> (192 \<le> n \<and> n \<le> 222 \<and> n \<noteq> 215)
         then char_of (n + 32) else c)"

definition toLowerCase :: "string \<Rightarrow> string" where
  "toLowerCase s = map toLowerChar s"

section \<open>The regular-expression engine\<close>

text \<open>
  The worker reaches the XRegExp library and the native \<open>String.replace\<close> and
  \<open>String.match\<close> only through five operations. They are a parameter of the model:
  \<^item> \<open>XRegExp src flags\<close> compiles a pattern, \<open>None\<close> standing for the thrown SyntaxError;
  \<^item> \<open>XRegExp_escape\<close> quotes the metacharacters of a literal;
  \<^item> \<open>XRegExp_exec str rx pos\<close> searches from \<open>pos\<close> and yields \<open>match.index\<close> and
    \<open>match[0]\<close>;
  \<^item> \<open>String_replace str rx replacement\<close> is \<open>str.replace(rx, replacement)\<close>, \<open>None\<close>
    standing for a thrown exception;
  \<^item> \<open>String_match str regexString\<close> is \<open>str.match(regexString)\<close> with a string argument,
    which compiles the string into a regular expression and searches \<open>str\<close> for it: \<open>None\<close>
    stands for the SyntaxError thrown when the string is not a regular expression,
    \<open>Some True\<close> for an array of matches and \<open>Some False\<close> for \<open>null\<close>.
\<close>

record 'rx RegexEngine =
  XRegExp :: "string \<Rightarrow> string \<Rightarrow> 'rx option"
  XRegExp_escape :: "string \<Rightarrow> string"
  XRegExp_exec :: "string \<Rightarrow> 'rx \<Rightarrow> nat \<Rightarrow> (nat \<times> string) option"
  String_replace :: "string \<Rightarrow> 'rx \<Rightarrow> string \<Rightarrow> string option"
  String_match :: "string \<Rightarrow> string \<Rightarrow> bool option"

datatype error = SyntaxError | TypeError

section \<open>MakeRegex\<close>

text \<open>The loop over \<open>modifiers\<close> of \<open>MakeRegex\<close>, with \<open>regexModifer\<close> as accumulator.\<close>

fun regexModifierLoop :: "string list \<Rightarrow> bool \<Rightarrow> string \<Rightarrow> string" where
  "regexModifierLoop [] forXregExp regexModifer = regexModifer"
| "regexModifierLoop (m # ms) forXregExp regexModifer =
     (if m = ''d''
      then (if forXregExp
            then regexModifierLoop ms forXregExp (regexModifer @ ''s'')
            else regexModifierLoop ms forXregExp regexModifer)
      else regexModifierLoop ms forXregExp (regexModifer @ m))"

definition wordBoundary :: string where
  "wordBoundary = [CHR 0x5C, CHR ''b'']"

definition MakeRegex ::
  "'rx RegexEngine \<Rightarrow> string \<Rightarrow> string \<Rightarrow> string list option \<Rightarrow> bool \<Rightarrow> error + 'rx" where
  "MakeRegex eng regexType pattern modifiers forXregExp =
     (let regexModifer =
            (case modifiers of
               None \<Rightarrow> []
             | Some ms \<Rightarrow> regexModifierLoop ms forXregExp []);
          t = toLowerCase regexType;
          source =
            (if t = ''regex-word'' then wordBoundary @ pattern @ wordBoundary
             else if t = ''string''
               then wordBoundary @ XRegExp_escape eng pattern @ wordBoundary
             else if t = ''substring'' then XRegExp_escape eng pattern
             else pattern)
      in case XRegExp eng source regexModifer of
           None \<Rightarrow> Inl SyntaxError
         | Some rx \<Rightarrow> Inr rx)"

text \<open>The mapping of section 4.B, written from the specification's words, to compare
  \<open>MakeRegex\<close> with.\<close>

datatype PatternKind = KindRegex | KindRegexWord | KindString | KindSubstring

definition kindOf :: "string \<Rightarrow> PatternKind" where
  "kindOf regexType =
     (let t = toLowerCase regexType
      in if t = ''regex'' then KindRegex
         else if t = ''regex-word'' then KindRegexWord
         else if t = ''string'' then KindString
         else if t = ''substring'' then KindSubstring
         else KindRegex)"

fun specSource :: "'rx RegexEngine \<Rightarrow> PatternKind \<Rightarrow> string \<Rightarrow> string" where
  "specSource eng KindRegex pattern = pattern"
| "specSource eng KindRegexWord pattern = wordBoundary @ pattern @ wordBoundary"
| "specSource eng KindString pattern =
     wordBoundary @ XRegExp_escape eng pattern @ wordBoundary"
| "specSource eng KindSubstring pattern = XRegExp_escape eng pattern"

definition specFlag :: "bool \<Rightarrow> string \<Rightarrow> string" where
  "specFlag forEngineWithDotAll m =
     (if m = ''d'' then (if forEngineWithDotAll then ''s'' else []) else m)"

definition specFlags :: "bool \<Rightarrow> string list \<Rightarrow> string" where
  "specFlags forEngineWithDotAll ms = concat (map (specFlag forEngineWithDotAll) ms)"

section \<open>Lines and offsets\<close>

text \<open>
  \<open>countLinebreaks\<close> is the number of matches of the pattern \<open>/(\r\n|\n|\r)/gm\<close> in a
  string: a carriage return followed by a line feed is one line break.
\<close>

fun countLinebreaks :: "string \<Rightarrow> nat" where
  "countLinebreaks [] = 0"
| "countLinebreaks [c] = (if c = CR \<or> c = LF then 1 else 0)"
| "countLinebreaks (c # d # cs) =
     (if c = CR \<and> d = LF then Suc (countLinebreaks cs)
      else if c = CR \<or> c = LF then Suc (countLinebreaks (d # cs))
      else countLinebreaks (d # cs))"

definition GetLineNumber :: "string \<Rightarrow> nat \<Rightarrow> nat" where
  "GetLineNumber documentContents currentPosition =
     countLinebreaks (take currentPosition documentContents)"

text \<open>
  The loop of \<open>GetDocumentPosition\<close>: \<open>newlineScan rest off line lineNumber\<close> runs over
  the text \<open>rest\<close> that starts at offset \<open>off\<close>, \<open>line\<close> line breaks plus one having been
  seen, and returns the offset after the line break that makes \<open>line\<close> equal to
  \<open>lineNumber\<close>, or the length of the document.
\<close>

fun newlineScan :: "string \<Rightarrow> nat \<Rightarrow> int \<Rightarrow> int \<Rightarrow> nat" where
  "newlineScan [] off line lineNumber = off"
| "newlineScan [c] off line lineNumber =
     (if c = CR \<or> c = LF
      then (if line + 1 = lineNumber then off + 1
            else newlineScan [] (off + 1) (line + 1) lineNumber)
      else newlineScan [] (off + 1) line lineNumber)"
| "newlineScan (c # d # cs) off line lineNumber =
     (if c = CR \<and> d = LF
      then (if line + 1 = lineNumber then off + 2
            else newlineScan cs (off + 2) (line + 1) lineNumber)
      else if c = CR \<or> c = LF
      then (if line + 1 = lineNumber then off + 1
            else newlineScan (d # cs) (off + 1) (line + 1) lineNumber)
      else newlineScan (d # cs) (off + 1) line lineNumber)"

definition GetDocumentPosition :: "string \<Rightarrow> int \<Rightarrow> nat" where
  "GetDocumentPosition documentContents lineNumber =
     (if lineNumber < 1 then 0
      else newlineScan documentContents 0 1 (lineNumber + 1))"

section \<open>Numbers and strings of JavaScript\<close>

definition digitChar :: "nat \<Rightarrow> char" where
  "digitChar d = char_of (48 + d)"

function toString10 :: "nat \<Rightarrow> string" where
  "toString10 n =
     (if n < 10 then [digitChar n] else toString10 (n div 10) @ [digitChar (n mod 10)])"
  by pat_completeness auto
termination
  by (relation "measure id") auto

declare toString10.simps [simp del]

definition Number_toString :: "int \<Rightarrow> string" where
  "Number_toString n =
     (if n < 0 then CHR ''-'' # toString10 (nat (- n)) else toString10 (nat n))"

definition isDigit :: "char \<Rightarrow> bool" where
  "isDigit c = (let n = (of_char c :: nat) in 48 \<le> n \<and> n \<le> 57)"

definition digitsValue :: "string \<Rightarrow> nat" where
  "digitsValue ds = foldl (\<lambda>acc c. 10 * acc + (of_char c - 48)) 0 ds"

text \<open>
  The conversion of a string to a number, for the strings the worker can build by
  appending a captured \<open>-*\d+\<close> to a printed line number: minus signs and digits only.
  \<open>None\<close> is NaN.
\<close>

definition String_toNumber :: "string \<Rightarrow> int option" where
  "String_toNumber s =
     (case s of
        [] \<Rightarrow> Some 0
      | c # cs \<Rightarrow>
          if c = CHR ''-''
          then (if cs \<noteq> [] \<and> list_all isDigit cs then Some (- int (digitsValue cs))
                else None)
          else if list_all isDigit s then Some (int (digitsValue s)) else None)"

text \<open>
  \<open>GetDocumentPosition\<close> called with a string for \<open>lineNumber\<close>: the comparison
  \<open>lineNumber < 1\<close> and the increment convert it to a number; with NaN the comparison is
  false and no line ever equals it, so the loop runs to the end of the document.
\<close>

definition GetDocumentPosition_str :: "string \<Rightarrow> string \<Rightarrow> nat" where
  "GetDocumentPosition_str documentContents lineNumber =
     (case String_toNumber lineNumber of
        None \<Rightarrow> length documentContents
      | Some n \<Rightarrow> GetDocumentPosition documentContents n)"

text \<open>
  The pattern \<open>/finding-region\((-*\d+),(-*\d+)\)/\<close> of \<open>MatchesConditions\<close>, searched
  anywhere in a string; the result is the two captured groups.
\<close>

definition signedDigits :: "string \<Rightarrow> (string \<times> string) option" where
  "signedDigits s =
     (let minus = takeWhile (\<lambda>c. c = CHR ''-'') s;
          r = dropWhile (\<lambda>c. c = CHR ''-'') s;
          ds = takeWhile isDigit r
      in if ds = [] then None else Some (minus @ ds, dropWhile isDigit r))"

definition regionMatchAt :: "string \<Rightarrow> (string \<times> string) option" where
  "regionMatchAt s =
     (if startsWith ''finding-region('' s
      then (case signedDigits (drop 15 s) of
              None \<Rightarrow> None
            | Some (a, r) \<Rightarrow>
                (case r of
                   [] \<Rightarrow> None
                 | c # r' \<Rightarrow>
                     if c = CHR '',''
                     then (case signedDigits r' of
                             None \<Rightarrow> None
                           | Some (b, r'') \<Rightarrow>
                               if startsWith '')'' r'' then Some (a, b) else None)
                     else None))
      else None)"

fun regionRegex_exec :: "string \<Rightarrow> (string \<times> string) option" where
  "regionRegex_exec [] = None"
| "regionRegex_exec (c # cs) =
     (case regionMatchAt (c # cs) of
        Some m \<Rightarrow> Some m
      | None \<Rightarrow> regionRegex_exec cs)"

section \<open>The data model\<close>

text \<open>
  The declarations of \<open>devskimObjects.ts\<close>, as the worker uses them. A field that the
  worker tests against \<open>undefined\<close> is an option.
\<close>

record Position =
  line :: int
  character :: int

record Range =
  range_start :: Position
  range_end :: Position

definition Range_create :: "int \<Rightarrow> int \<Rightarrow> int \<Rightarrow> int \<Rightarrow> Range" where
  "Range_create startLine startCharacter endLine endCharacter =
     \<lparr>range_start = \<lparr>line = startLine, character = startCharacter\<rparr>,
      range_end = \<lparr>line = endLine, character = endCharacter\<rparr>\<rparr>"

datatype DevskimRuleSeverity =
  Critical | Important | Moderate | BestPractice | WarningInfo | ManualReview

record Pattern =
  pat_type :: string
  pat_pattern :: string
  pat_modifiers :: "string list option"
  pat_scopes :: "string list"

record Condition =
  cond_pattern :: Pattern
  cond_search_in :: "string option"
  cond_negateFinding :: "bool option"

record FixIt =
  fix_name :: string
  fix_pattern :: Pattern
  fix_replacement :: string

record Rule =
  rule_id :: string
  rule_name :: string
  rule_description :: string
  rule_recommendation :: string
  rule_ruleInfo :: string
  rule_severity :: string
  rule_appliesTo :: "string list option"
  rule_overrides :: "string list option"
  rule_patterns :: "Pattern list"
  rule_conditions :: "Condition list option"
  rule_fixIts :: "FixIt list option"

record DevSkimAutoFixEdit =
  edit_text :: string
  edit_fixName :: "string option"
  edit_range :: Range

record DevSkimProblem =
  message :: string
  source :: string
  ruleId :: string
  severity :: DevskimRuleSeverity
  replacement :: string
  issueURL :: string
  problem_range :: Range
  problem_fixes :: "DevSkimAutoFixEdit list"
  overrides :: "string list"
  suppressedFindingRange :: "Range option"

record DevSkimSuppressionFinding =
  showFinding :: bool
  ruleColumn :: int

record IDevSkimSettings =
  ignoreFilesList :: "string list option"
  ignoreRulesList :: "string list"
  enableBestPracticeRules :: bool
  enableManualReviewRules :: bool

text \<open>
  The worker: its rules, its settings, the regular-expression engine, and the three
  functions of other modules it calls (\<open>DevSkimSuppression.isFindingCommented\<close>,
  \<open>DevSkimSuppression.createActions\<close>, \<open>PathOperations.ignoreFile\<close>), which are
  parameters of the model.
\<close>

record 'rx DevSkimWorker =
  engine :: "'rx RegexEngine"
  analysisRules :: "Rule list option"
  dswSettings :: IDevSkimSettings
  isFindingCommented ::
    "nat \<Rightarrow> string \<Rightarrow> string \<Rightarrow> DevskimRuleSeverity \<Rightarrow> DevSkimSuppressionFinding"
  createActions ::
    "string \<Rightarrow> string \<Rightarrow> nat \<Rightarrow> int \<Rightarrow> string \<Rightarrow> DevskimRuleSeverity
       \<Rightarrow> DevSkimAutoFixEdit list"
  ignoreFile :: "string \<Rightarrow> string list \<Rightarrow> bool"

section \<open>The comment oracle (sourceContext.ts)\<close>

text \<open>
  The worker calls \<open>SourceComments.IsFindingInComment\<close>, imported from \<open>comments.ts\<close>, which
  is not among the sources. \<open>sourceContext.ts\<close> holds the function of that name, with the
  behaviour section 4.A describes; it is the one modelled and the one the worker calls here.
\<close>

definition GetLineComment :: "string \<Rightarrow> string" where
  "GetLineComment langID =
     (if langID = ''vb'' then [CHR 0x27]
      else if langID \<in> set [''lua'', ''sql'', ''tsql''] then ''--''
      else if langID = ''clojure'' then '';;''
      else if langID \<in> set [''yaml'', ''shellscript'', ''ruby'', ''powershell'',
                ''coffeescript'', ''python'', ''r'', ''perl6'', ''perl''] then ''#''
      else if langID = ''jade'' then ''//-''
      else if langID \<in> set [''c'', ''cpp'', ''csharp'', ''fsharp'', ''groovy'', ''php'',
                ''javascript'', ''javascriptreact'', ''typescript'', ''typescriptreact'',
                ''java'', ''objective-c'', ''swift'', ''go'', ''rust''] then ''//''
      else [])"

definition GetBlockCommentStart :: "string \<Rightarrow> string" where
  "GetBlockCommentStart langID =
     (if langID \<in> set [''c'', ''cpp'', ''csharp'', ''groovy'', ''php'', ''javascript'',
           ''javascriptreact'', ''typescript'', ''typescriptreact'', ''java'',
           ''objective-c'', ''swift'', ''go'', ''rust''] then ''/*''
      else if langID = ''fsharp'' then ''(*''
      else if langID \<in> set [''html'', ''xml''] then ''<!--''
      else [])"

definition GetBlockCommentEnd :: "string \<Rightarrow> string" where
  "GetBlockCommentEnd langID =
     (if langID \<in> set [''c'', ''cpp'', ''csharp'', ''groovy'', ''php'', ''javascript'',
           ''javascriptreact'', ''typescript'', ''typescriptreact'', ''java'',
           ''objective-c'', ''swift'', ''go'', ''rust''] then ''*/''
      else if langID = ''fsharp'' then ''*)''
      else if langID \<in> set [''html'', ''xml''] then ''-->''
      else [])"

definition IsFindingInComment :: "string \<Rightarrow> string \<Rightarrow> int \<Rightarrow> bool \<Rightarrow> bool" where
  "IsFindingInComment langID documentContents newlineIndex onlyBlock =
     (if length documentContents < 1 then False
      else
        let startComment = GetLineComment langID;
            commentText =
              (if newlineIndex > -1 then drop (nat newlineIndex) documentContents
               else documentContents)
        in if \<not> onlyBlock \<and> length startComment > 0 \<and> indexOf commentText startComment > -1
           then True
           else
             let startBlock = GetBlockCommentStart langID;
                 endComment = GetBlockCommentEnd langID
             in length startBlock > 0 \<and> length endComment > 0 \<and>
                lastIndexOf documentContents startBlock > lastIndexOf documentContents endComment)"

section \<open>Severities and applicability\<close>

definition MapRuleSeverity :: "string \<Rightarrow> DevskimRuleSeverity" where
  "MapRuleSeverity sev =
     (let t = toLowerCase sev
      in if t = ''critical'' then Critical
         else if t = ''important'' then Important
         else if t = ''moderate'' then Moderate
         else if t = ''best-practice'' then BestPractice
         else if t = ''manual-review'' then ManualReview
         else BestPractice)"

definition RuleSeverityEnabled :: "IDevSkimSettings \<Rightarrow> DevskimRuleSeverity \<Rightarrow> bool" where
  "RuleSeverityEnabled settings ruleSeverity =
     (ruleSeverity = Critical \<or> ruleSeverity = Important \<or> ruleSeverity = Moderate \<or>
      (ruleSeverity = BestPractice \<and> enableBestPracticeRules settings) \<or>
      (ruleSeverity = ManualReview \<and> enableManualReviewRules settings))"

definition AppliesToLangOrFile :: "string \<Rightarrow> string list option \<Rightarrow> string \<Rightarrow> bool" where
  "AppliesToLangOrFile languageID appliesTo documentURI =
     (case appliesTo of
        None \<Rightarrow> True
      | Some as \<Rightarrow>
          if length as > 0
          then list_ex
                 (\<lambda>applies.
                    toLowerCase languageID = toLowerCase applies \<or>
                    (indexOf applies ''.'' \<noteq> -1 \<and>
                     indexOf (toLowerCase documentURI) (toLowerCase applies) \<noteq> -1))
                 as
          else True)"

section \<open>Scope, problems and fixes\<close>

definition MatchIsInScope :: "string \<Rightarrow> string \<Rightarrow> int \<Rightarrow> string list \<Rightarrow> bool" where
  "MatchIsInScope langID docContentsToFinding newlineIndex scopes =
     (if ''all'' \<in> set scopes then True
      else
        let findingInComment = IsFindingInComment langID docContentsToFinding newlineIndex False
        in list_ex
             (\<lambda>scope. (scope = ''code'' \<and> \<not> findingInComment) \<or>
                      (scope = ''comment'' \<and> findingInComment))
             scopes)"

text \<open>
  \<open>MakeProblem\<close>. The constructor of \<open>DevSkimProblem\<close> (in \<open>devskimObjects.ts\<close>) stores its
  seven arguments; the worker then reads \<open>fixes\<close> and \<open>overrides\<close> as arrays, so both start
  empty. The field \<open>range\<close> is \<open>problem_range\<close> here, and \<open>fixes\<close> is \<open>problem_fixes\<close>.
\<close>

definition MakeProblem ::
  "Rule \<Rightarrow> DevskimRuleSeverity \<Rightarrow> Range \<Rightarrow> Range option \<Rightarrow> DevSkimProblem" where
  "MakeProblem rule warningLevel problemRange suppressedRange =
     \<lparr>message = rule_description rule,
      source = rule_name rule,
      ruleId = rule_id rule,
      severity = warningLevel,
      replacement = rule_recommendation rule,
      issueURL = rule_ruleInfo rule,
      problem_range = problemRange,
      problem_fixes = [],
      overrides =
        (case rule_overrides rule of
           None \<Rightarrow> []
         | Some ovs \<Rightarrow> if length ovs > 0 then ovs else []),
      suppressedFindingRange = suppressedRange\<rparr>"

text \<open>
  The loop of \<open>MakeFixes\<close> runs \<open>fixIndex\<close> from the last template down to 0;
  \<open>MakeFixes_loop eng fixIts n\<close> has the templates below index \<open>n\<close> still to do. The regex
  is built before the \<open>try\<close>, the substitution inside it.
\<close>

fun MakeFixes_loop ::
  "'rx RegexEngine \<Rightarrow> FixIt list \<Rightarrow> nat \<Rightarrow> string \<Rightarrow> Range \<Rightarrow> DevSkimAutoFixEdit list
     \<Rightarrow> error + DevSkimAutoFixEdit list" where
  "MakeFixes_loop eng fixIts 0 replacementSource rng fixes = Inr fixes"
| "MakeFixes_loop eng fixIts (Suc fixIndex) replacementSource rng fixes =
     (let f = fixIts ! fixIndex
      in case MakeRegex eng (pat_type (fix_pattern f)) (pat_pattern (fix_pattern f))
                (pat_modifiers (fix_pattern f)) False of
           Inl e \<Rightarrow> Inl e
         | Inr replacePattern \<Rightarrow>
             (case String_replace eng replacementSource replacePattern (fix_replacement f) of
                None \<Rightarrow> MakeFixes_loop eng fixIts fixIndex replacementSource rng fixes
              | Some text \<Rightarrow>
                  MakeFixes_loop eng fixIts fixIndex replacementSource rng
                    (fixes @ [\<lparr>edit_text = text,
                               edit_fixName = Some (''DevSkim: '' @ fix_name f),
                               edit_range = rng\<rparr>])))"

definition MakeFixes ::
  "'rx RegexEngine \<Rightarrow> Rule \<Rightarrow> string \<Rightarrow> Range \<Rightarrow> error + DevSkimAutoFixEdit list" where
  "MakeFixes eng rule replacementSource rng =
     (case rule_fixIts rule of
        None \<Rightarrow> Inr []
      | Some fixIts \<Rightarrow>
          if length fixIts > 0
          then MakeFixes_loop eng fixIts (length fixIts) replacementSource rng []
          else Inr [])"

section \<open>MatchesConditions\<close>

text \<open>
  The region \<open>(startPos, endPos)\<close> a condition is searched in. A \<open>search_in\<close> that is
  undefined or truthy (any non-empty string) takes the first branch; the other two branches
  are left for the empty string. In the last branch the captured groups are strings, so
  \<open>+\<close> appends them to the printed line number, and without a match the two positions stay
  the line numbers of the finding.
\<close>

definition conditionRegion :: "string \<Rightarrow> Range \<Rightarrow> string option \<Rightarrow> int \<times> int" where
  "conditionRegion documentContents findingRange search_in =
     (let startLine = line (range_start findingRange);
          endLine = line (range_end findingRange);
          lineRegion =
            (int (GetDocumentPosition documentContents startLine),
             int (GetDocumentPosition documentContents (endLine + 1)))
      in case search_in of
           None \<Rightarrow> lineRegion
         | Some s \<Rightarrow>
             if s \<noteq> [] then lineRegion
             else if s = ''finding-only''
             then (int (GetDocumentPosition documentContents startLine)
                     + character (range_start findingRange),
                   int (GetDocumentPosition documentContents endLine)
                     + character (range_end findingRange))
             else (case regionRegex_exec s of
                     Some (a, b) \<Rightarrow>
                       (int (GetDocumentPosition_str documentContents
                               (Number_toString startLine @ a)),
                        int (GetDocumentPosition_str documentContents
                               (Number_toString endLine @ b @ ''1'')))
                   | None \<Rightarrow> (startLine, endLine)))"

definition matchNewlineIndex :: "string \<Rightarrow> nat \<Rightarrow> int" where
  "matchNewlineIndex documentContents index =
     (if GetLineNumber documentContents index = 0 then -1
      else lastIndexOf (take index documentContents) [LF])"

datatype ScanExit = ReturnFalse | LoopDone bool

text \<open>
  The \<open>while (match)\<close> loop of one condition. \<open>ReturnFalse\<close> is the \<open>return false\<close> inside
  the loop; \<open>LoopDone found\<close> is leaving the loop with \<open>foundPattern = found\<close>. A loop
  that never ends has no value.
\<close>

partial_function (option) conditionScan ::
  "'rx RegexEngine \<Rightarrow> 'rx \<Rightarrow> bool \<Rightarrow> string list \<Rightarrow> string \<Rightarrow> string \<Rightarrow> int \<Rightarrow> nat
     \<Rightarrow> ScanExit option" where
  "conditionScan eng conditionRegex negateFinding scopes documentContents langID endPos startPos =
     (case XRegExp_exec eng documentContents conditionRegex startPos of
        None \<Rightarrow> Some (LoopDone False)
      | Some m \<Rightarrow>
          if int (fst m) > endPos
          then (if \<not> negateFinding then Some ReturnFalse else Some (LoopDone False))
          else if MatchIsInScope langID (take (fst m) documentContents)
                    (matchNewlineIndex documentContents (fst m)) scopes
          then (if negateFinding then Some ReturnFalse else Some (LoopDone True))
          else conditionScan eng conditionRegex negateFinding scopes documentContents langID
                 endPos (fst m + length (snd m)))"

declare conditionScan.simps [code]

definition globalModifiers :: "string list option \<Rightarrow> string list" where
  "globalModifiers modifiers =
     (case modifiers of
        None \<Rightarrow> [''g'']
      | Some ms \<Rightarrow> if length ms > 0 then ms @ [''g''] else [''g''])"

fun conditionsLoop ::
  "'rx RegexEngine \<Rightarrow> Condition list \<Rightarrow> string \<Rightarrow> Range \<Rightarrow> string \<Rightarrow> (error + bool) option" where
  "conditionsLoop eng [] documentContents findingRange langID = Some (Inr True)"
| "conditionsLoop eng (condition # rest) documentContents findingRange langID =
     (let negateFinding =
            (case cond_negateFinding condition of None \<Rightarrow> False | Some b \<Rightarrow> b);
          p = cond_pattern condition
      in case MakeRegex eng (pat_type p) (pat_pattern p)
                (Some (globalModifiers (pat_modifiers p))) True of
           Inl e \<Rightarrow> Some (Inl e)
         | Inr conditionRegex \<Rightarrow>
             (let region = conditionRegion documentContents findingRange (cond_search_in condition)
              in case conditionScan eng conditionRegex negateFinding (pat_scopes p)
                        documentContents langID (snd region) (nat (fst region)) of
                   None \<Rightarrow> None
                 | Some ReturnFalse \<Rightarrow> Some (Inr False)
                 | Some (LoopDone foundPattern) \<Rightarrow>
                     if \<not> negateFinding \<and> \<not> foundPattern then Some (Inr False)
                     else conditionsLoop eng rest documentContents findingRange langID))"

definition MatchesConditions ::
  "'rx RegexEngine \<Rightarrow> Condition list option \<Rightarrow> string \<Rightarrow> Range \<Rightarrow> string
     \<Rightarrow> (error + bool) option" where
  "MatchesConditions eng conditions documentContents findingRange langID =
     (case conditions of
        None \<Rightarrow> Some (Inr True)
      | Some cs \<Rightarrow> conditionsLoop eng cs documentContents findingRange langID)"

section \<open>runAnalysis\<close>

text \<open>The range of a match found at offset \<open>index\<close> with text \<open>m0\<close> (\<open>match[0]\<close>).\<close>

definition matchRange :: "string \<Rightarrow> nat \<Rightarrow> string \<Rightarrow> Range" where
  "matchRange documentContents index m0 =
     (let lineStart = int (GetLineNumber documentContents index);
          newlineIndex = matchNewlineIndex documentContents index;
          columnStart = int index - newlineIndex - 1;
          replacementSource = take (length m0) (drop index documentContents);
          lineEnd = int (GetLineNumber replacementSource (length replacementSource)) + lineStart;
          columnEnd =
            (if lineStart = lineEnd then columnStart + int (length m0)
             else int (length m0) - indexOf (drop index documentContents) [LF] - 1)
      in Range_create lineStart columnStart lineEnd columnEnd)"

text \<open>
  The body of the \<open>while (match)\<close> loop of \<open>runAnalysis\<close>, up to the advance of the
  cursor: the problems it pushes (none or one).
\<close>

definition handleMatch ::
  "'rx DevSkimWorker \<Rightarrow> Rule \<Rightarrow> Pattern \<Rightarrow> string \<Rightarrow> string \<Rightarrow> nat \<Rightarrow> string
     \<Rightarrow> (error + DevSkimProblem list) option" where
  "handleMatch W rule pat documentContents langID index m0 =
     (let ruleSeverity = MapRuleSeverity (rule_severity rule);
          conditions = (case rule_conditions rule of None \<Rightarrow> [] | Some cs \<Rightarrow> cs);
          suppressionFinding =
            isFindingCommented W index documentContents (rule_id rule) ruleSeverity;
          newlineIndex = matchNewlineIndex documentContents index;
          rng = matchRange documentContents index m0;
          lineStart = line (range_start rng);
          columnStart = character (range_start rng);
          replacementSource = take (length m0) (drop index documentContents);
          marker =
            (if ruleColumn suppressionFinding > 0
             then [MakeProblem rule WarningInfo
                     (Range_create lineStart (columnStart + ruleColumn suppressionFinding)
                        lineStart
                        (columnStart + ruleColumn suppressionFinding
                           + int (length (rule_id rule))))
                     (Some rng)]
             else [])
      in if \<not> showFinding suppressionFinding \<and>
            MatchIsInScope langID (take index documentContents) newlineIndex (pat_scopes pat)
         then (case MatchesConditions (engine W) (Some conditions) documentContents rng langID of
                 None \<Rightarrow> None
               | Some (Inl e) \<Rightarrow> Some (Inl e)
               | Some (Inr ok) \<Rightarrow>
                   if ok
                   then (case MakeFixes (engine W) rule replacementSource rng of
                           Inl e \<Rightarrow> Some (Inl e)
                         | Inr fs \<Rightarrow>
                             (let problem = MakeProblem rule (MapRuleSeverity (rule_severity rule))
                                              rng None
                              in Some (Inr [problem
                                   \<lparr>problem_fixes :=
                                      (problem_fixes problem @ fs) @
                                      createActions W (rule_id rule) documentContents index
                                        lineStart langID ruleSeverity\<rparr>])))
                   else Some (Inr marker))
         else Some (Inr marker))"

partial_function (option) matchLoop ::
  "'rx DevSkimWorker \<Rightarrow> Rule \<Rightarrow> Pattern \<Rightarrow> 'rx \<Rightarrow> string \<Rightarrow> string \<Rightarrow> nat
     \<Rightarrow> DevSkimProblem list \<Rightarrow> (error + DevSkimProblem list) option" where
  "matchLoop W rule pat matchPattern documentContents langID matchPosition problems =
     (case XRegExp_exec (engine W) documentContents matchPattern matchPosition of
        None \<Rightarrow> Some (Inr problems)
      | Some m \<Rightarrow>
          (case handleMatch W rule pat documentContents langID (fst m) (snd m) of
             None \<Rightarrow> None
           | Some (Inl e) \<Rightarrow> Some (Inl e)
           | Some (Inr pushed) \<Rightarrow>
               matchLoop W rule pat matchPattern documentContents langID
                 (fst m + length (snd m)) (problems @ pushed)))"

declare matchLoop.simps [code]

fun patternsLoop ::
  "'rx DevSkimWorker \<Rightarrow> Rule \<Rightarrow> Pattern list \<Rightarrow> string \<Rightarrow> string \<Rightarrow> DevSkimProblem list
     \<Rightarrow> (error + DevSkimProblem list) option" where
  "patternsLoop W rule [] documentContents langID problems = Some (Inr problems)"
| "patternsLoop W rule (pat # rest) documentContents langID problems =
     (case MakeRegex (engine W) (pat_type pat) (pat_pattern pat)
             (Some (globalModifiers (pat_modifiers pat))) True of
        Inl e \<Rightarrow> Some (Inl e)
      | Inr matchPattern \<Rightarrow>
          (case matchLoop W rule pat matchPattern documentContents langID 0 problems of
             None \<Rightarrow> None
           | Some (Inl e) \<Rightarrow> Some (Inl e)
           | Some (Inr problems') \<Rightarrow> patternsLoop W rule rest documentContents langID problems'))"

fun rulesLoop ::
  "'rx DevSkimWorker \<Rightarrow> Rule list \<Rightarrow> string \<Rightarrow> string \<Rightarrow> string \<Rightarrow> DevSkimProblem list
     \<Rightarrow> (error + DevSkimProblem list) option" where
  "rulesLoop W [] documentContents langID documentURI problems = Some (Inr problems)"
| "rulesLoop W (rule # rest) documentContents langID documentURI problems =
     (if rule_id rule \<notin> set (ignoreRulesList (dswSettings W)) \<and>
         AppliesToLangOrFile langID (rule_appliesTo rule) documentURI \<and>
         RuleSeverityEnabled (dswSettings W) (MapRuleSeverity (rule_severity rule))
      then (case patternsLoop W rule (rule_patterns rule) documentContents langID problems of
              None \<Rightarrow> None
            | Some (Inl e) \<Rightarrow> Some (Inl e)
            | Some (Inr problems') \<Rightarrow> rulesLoop W rest documentContents langID documentURI problems')
      else rulesLoop W rest documentContents langID documentURI problems)"

definition runAnalysis ::
  "'rx DevSkimWorker \<Rightarrow> string \<Rightarrow> string \<Rightarrow> string \<Rightarrow> (error + DevSkimProblem list) option" where
  "runAnalysis W documentContents langID documentURI =
     (case analysisRules W of
        None \<Rightarrow> Some (Inl TypeError)
      | Some rules \<Rightarrow> rulesLoop W rules documentContents langID documentURI [])"

section \<open>processOverrides\<close>

text \<open>
  \<open>regexString\<close> is \<open>override1|override2|...\<close>, the override ids of a problem joined by
  \<open>|\<close>. Every turn of the inner loop hands it to \<open>ruleId.match\<close>, which compiles it: an
  override id that is not a regular expression makes \<open>processOverrides\<close> throw.
\<close>

definition overridesRegex :: "string list \<Rightarrow> string" where
  "overridesRegex ovs =
     (case ovs of
        [] \<Rightarrow> []
      | first # others \<Rightarrow> foldl (\<lambda>regexString ov. regexString @ ''|'' @ ov) first others)"

definition sameStart :: "DevSkimProblem \<Rightarrow> Range \<Rightarrow> bool" where
  "sameStart q rng =
     (line (range_start (problem_range q)) = line (range_start rng) \<and>
      character (range_start (problem_range q)) = character (range_start rng))"

text \<open>The range \<open>problem.suppressedFindingRange\<close> when it is set, else \<open>problem.range\<close>.\<close>

definition anchorOf :: "DevSkimProblem \<Rightarrow> Range" where
  "anchorOf problem =
     (case suppressedFindingRange problem of
        Some r \<Rightarrow> r
      | None \<Rightarrow> problem_range problem)"

text \<open>
  \<open>splice(x, 1)\<close> moves the object \<open>problem\<close> of the outer loop, which sits at index
  \<open>current\<close>, one place down when \<open>x\<close> is before it, and out of the array when \<open>x\<close> is its
  index.
\<close>

definition afterSplice :: "nat option \<Rightarrow> nat \<Rightarrow> nat option" where
  "afterSplice current x =
     (case current of
        None \<Rightarrow> None
      | Some c \<Rightarrow> if x < c then Some (c - 1) else if x = c then None else Some c)"

text \<open>
  The inner \<open>for\<close> loop with its \<open>splice\<close>. \<open>current\<close> is the index at which the object
  \<open>problem\<close> of the outer loop now sits in the array (\<open>None\<close> once it has been spliced out):
  the problems are distinct objects, and the outer loop writes to \<open>problem\<close> afterwards.
  Every turn calls \<open>ruleId.match(regexString)\<close> first, which may throw.
\<close>

function spliceLoop ::
  "'rx RegexEngine \<Rightarrow> string \<Rightarrow> Range \<Rightarrow> DevSkimProblem list \<Rightarrow> nat \<Rightarrow> nat option \<Rightarrow> bool
     \<Rightarrow> error + (DevSkimProblem list \<times> nat option \<times> bool)" where
  "spliceLoop eng regexString rng problems x current overrideRemoved =
     (if x < length problems
      then (case String_match eng (ruleId (problems ! x)) regexString of
              None \<Rightarrow> Inl SyntaxError
            | Some matches \<Rightarrow>
                if matches \<and> sameStart (problems ! x) rng
                then spliceLoop eng regexString rng (take x problems @ drop (Suc x) problems)
                       (Suc x) (afterSplice current x) True
                else spliceLoop eng regexString rng problems (Suc x) current overrideRemoved)
      else Inr (problems, current, overrideRemoved))"
  by pat_completeness auto
termination
  by (relation "measure (\<lambda>(eng, regexString, rng, problems, x, current, overrideRemoved).
                  length problems - x)") auto

declare spliceLoop.simps [simp del]

lemma spliceLoop_end:
  "\<not> x < length problems \<Longrightarrow>
   spliceLoop eng rs rng problems x cur removed = Inr (problems, cur, removed)"
  by (subst spliceLoop.simps) simp

lemma spliceLoop_throw:
  "x < length problems \<Longrightarrow> String_match eng (ruleId (problems ! x)) rs = None \<Longrightarrow>
   spliceLoop eng rs rng problems x cur removed = Inl SyntaxError"
  by (subst spliceLoop.simps) simp

lemma spliceLoop_hit:
  "x < length problems \<Longrightarrow> String_match eng (ruleId (problems ! x)) rs = Some m \<Longrightarrow>
   m \<and> sameStart (problems ! x) rng \<Longrightarrow>
   spliceLoop eng rs rng problems x cur removed =
     spliceLoop eng rs rng (take x problems @ drop (Suc x) problems) (Suc x)
       (afterSplice cur x) True"
  by (subst spliceLoop.simps) simp

lemma spliceLoop_miss:
  "x < length problems \<Longrightarrow> String_match eng (ruleId (problems ! x)) rs = Some m \<Longrightarrow>
   \<not> (m \<and> sameStart (problems ! x) rng) \<Longrightarrow>
   spliceLoop eng rs rng problems x cur removed =
     spliceLoop eng rs rng problems (Suc x) cur removed"
  by (subst spliceLoop.simps) auto

lemma spliceLoop_length:
  "spliceLoop eng rs rng problems x cur removed = Inr r \<Longrightarrow> length (fst r) \<le> length problems"
proof (induction eng rs rng problems x cur removed arbitrary: r rule: spliceLoop.induct)
  case (1 eng rs rng problems x cur removed)
  show ?case
  proof (cases "x < length problems")
    case False
    with 1(3) show ?thesis by (auto simp: spliceLoop_end)
  next
    case True
    show ?thesis
    proof (cases "String_match eng (ruleId (problems ! x)) rs")
      case None
      with 1(3) True show ?thesis by (simp add: spliceLoop_throw)
    next
      case (Some m)
      show ?thesis
      proof (cases "m \<and> sameStart (problems ! x) rng")
        case hit: True
        from 1(3) have "spliceLoop eng rs rng (take x problems @ drop (Suc x) problems) (Suc x)
                          (afterSplice cur x) True = Inr r"
          by (simp add: spliceLoop_hit [OF True Some hit])
        from 1(1) [OF True Some hit this] True show ?thesis by simp
      next
        case miss: False
        from 1(3) have "spliceLoop eng rs rng problems (Suc x) cur removed = Inr r"
          by (simp add: spliceLoop_miss [OF True Some miss])
        from 1(2) [OF True Some miss this] show ?thesis .
      qed
    qed
  qed
qed

lemma spliceLoop_removed:
  "spliceLoop eng rs rng problems x cur removed = Inr r \<Longrightarrow> snd (snd r) \<Longrightarrow>
   removed \<or> length (fst r) < length problems"
proof (induction eng rs rng problems x cur removed arbitrary: r rule: spliceLoop.induct)
  case (1 eng rs rng problems x cur removed)
  show ?case
  proof (cases "x < length problems")
    case False
    with 1(3,4) show ?thesis by (auto simp: spliceLoop_end)
  next
    case True
    show ?thesis
    proof (cases "String_match eng (ruleId (problems ! x)) rs")
      case None
      with 1(3) True show ?thesis by (simp add: spliceLoop_throw)
    next
      case (Some m)
      show ?thesis
      proof (cases "m \<and> sameStart (problems ! x) rng")
        case hit: True
        from 1(3) have "spliceLoop eng rs rng (take x problems @ drop (Suc x) problems) (Suc x)
                          (afterSplice cur x) True = Inr r"
          by (simp add: spliceLoop_hit [OF True Some hit])
        from spliceLoop_length [OF this] True
        have "length (fst r) \<le> length problems - 1" by simp
        with True show ?thesis by arith
      next
        case miss: False
        from 1(3) have "spliceLoop eng rs rng problems (Suc x) cur removed = Inr r"
          by (simp add: spliceLoop_miss [OF True Some miss])
        from 1(2) [OF True Some miss this 1(4)] show ?thesis .
      qed
    qed
  qed
qed

text \<open>\<open>problem.overrides = []\<close>, written to the object where it now sits.\<close>

definition clearOverrides :: "DevSkimProblem list \<Rightarrow> nat option \<Rightarrow> DevSkimProblem list" where
  "clearOverrides problems current =
     (case current of
        None \<Rightarrow> problems
      | Some c \<Rightarrow> problems[c := (problems ! c)\<lparr>overrides := []\<rparr>])"

lemma length_clearOverrides: "length (clearOverrides problems current) = length problems"
  by (simp add: clearOverrides_def split: option.splits)

text \<open>
  The \<open>for ... of\<close> loop: the array iterator keeps an index \<open>i\<close> and compares it with the
  current length of the array at every step.
\<close>

function overridesLoop ::
  "'rx RegexEngine \<Rightarrow> DevSkimProblem list \<Rightarrow> nat \<Rightarrow> bool
     \<Rightarrow> error + (DevSkimProblem list \<times> bool)" where
  "overridesLoop eng problems i overrideRemoved =
     (if i < length problems
      then (if length (overrides (problems ! i)) > 0
            then (case spliceLoop eng (overridesRegex (overrides (problems ! i)))
                         (anchorOf (problems ! i)) problems 0 (Some i) overrideRemoved of
                    Inl e \<Rightarrow> Inl e
                  | Inr spliced \<Rightarrow>
                      overridesLoop eng (clearOverrides (fst spliced) (fst (snd spliced)))
                        (Suc i) (snd (snd spliced)))
            else overridesLoop eng problems (Suc i) overrideRemoved)
      else Inr (problems, overrideRemoved))"
  by pat_completeness auto
termination
proof (relation "measure (\<lambda>(eng, problems, i, overrideRemoved). length problems - i)",
       goal_cases)
  case 1
  show ?case by simp
next
  case (2 eng problems i overrideRemoved spliced)
  from spliceLoop_length [OF 2(3)] 2(1) show ?case
    by (simp add: length_clearOverrides)
next
  case 3
  then show ?case by simp
qed

declare overridesLoop.simps [simp del]

lemma overridesLoop_end:
  "\<not> i < length problems \<Longrightarrow>
   overridesLoop eng problems i removed = Inr (problems, removed)"
  by (subst overridesLoop.simps) simp

lemma overridesLoop_skip:
  "i < length problems \<Longrightarrow> overrides (problems ! i) = [] \<Longrightarrow>
   overridesLoop eng problems i removed = overridesLoop eng problems (Suc i) removed"
  by (subst overridesLoop.simps) simp

lemma overridesLoop_throw:
  "i < length problems \<Longrightarrow> overrides (problems ! i) \<noteq> [] \<Longrightarrow>
   spliceLoop eng (overridesRegex (overrides (problems ! i))) (anchorOf (problems ! i))
     problems 0 (Some i) removed = Inl e \<Longrightarrow>
   overridesLoop eng problems i removed = Inl e"
  by (subst overridesLoop.simps) simp

lemma overridesLoop_step:
  "i < length problems \<Longrightarrow> overrides (problems ! i) \<noteq> [] \<Longrightarrow>
   spliceLoop eng (overridesRegex (overrides (problems ! i))) (anchorOf (problems ! i))
     problems 0 (Some i) removed = Inr spliced \<Longrightarrow>
   overridesLoop eng problems i removed =
     overridesLoop eng (clearOverrides (fst spliced) (fst (snd spliced))) (Suc i)
       (snd (snd spliced))"
  by (subst overridesLoop.simps) simp

lemma overridesLoop_length:
  "overridesLoop eng problems i removed = Inr r \<Longrightarrow> length (fst r) \<le> length problems"
proof (induction eng problems i removed arbitrary: r rule: overridesLoop.induct)
  case (1 eng problems i removed)
  show ?case
  proof (cases "i < length problems")
    case False
    with 1(3) show ?thesis by (auto simp: overridesLoop_end)
  next
    case True
    show ?thesis
    proof (cases "overrides (problems ! i) = []")
      case none: True
      from 1(3) have "overridesLoop eng problems (Suc i) removed = Inr r"
        by (simp add: overridesLoop_skip [OF True none])
      from 1(2) [OF True _ this] none show ?thesis by simp
    next
      case ov: False
      show ?thesis
      proof (cases "spliceLoop eng (overridesRegex (overrides (problems ! i)))
                      (anchorOf (problems ! i)) problems 0 (Some i) removed")
        case (Inl e)
        with 1(3) show ?thesis by (simp add: overridesLoop_throw [OF True ov Inl])
      next
        case (Inr spliced)
        from 1(3) have "overridesLoop eng (clearOverrides (fst spliced) (fst (snd spliced)))
                          (Suc i) (snd (snd spliced)) = Inr r"
          by (simp add: overridesLoop_step [OF True ov Inr])
        from 1(1) [OF True _ Inr this] ov spliceLoop_length [OF Inr]
        show ?thesis by (simp add: length_clearOverrides)
      qed
    qed
  qed
qed

lemma overridesLoop_removed:
  "overridesLoop eng problems i removed = Inr r \<Longrightarrow> snd r \<Longrightarrow>
   removed \<or> length (fst r) < length problems"
proof (induction eng problems i removed arbitrary: r rule: overridesLoop.induct)
  case (1 eng problems i removed)
  show ?case
  proof (cases "i < length problems")
    case False
    with 1(3,4) show ?thesis by (auto simp: overridesLoop_end)
  next
    case True
    show ?thesis
    proof (cases "overrides (problems ! i) = []")
      case none: True
      from 1(3) have "overridesLoop eng problems (Suc i) removed = Inr r"
        by (simp add: overridesLoop_skip [OF True none])
      from 1(2) [OF True _ this 1(4)] none show ?thesis by simp
    next
      case ov: False
      show ?thesis
      proof (cases "spliceLoop eng (overridesRegex (overrides (problems ! i)))
                      (anchorOf (problems ! i)) problems 0 (Some i) removed")
        case (Inl e)
        with 1(3) show ?thesis by (simp add: overridesLoop_throw [OF True ov Inl])
      next
        case (Inr spliced)
        from 1(3) have rest: "overridesLoop eng (clearOverrides (fst spliced) (fst (snd spliced)))
                          (Suc i) (snd (snd spliced)) = Inr r"
          by (simp add: overridesLoop_step [OF True ov Inr])
        have le: "length (fst r) \<le> length (fst spliced)"
          using overridesLoop_length [OF rest] by (simp add: length_clearOverrides)
        have le2: "length (fst spliced) \<le> length problems"
          by (rule spliceLoop_length [OF Inr])
        from 1(1) [OF True _ Inr rest 1(4)] ov
        have step: "snd (snd spliced) \<or> length (fst r) < length (fst spliced)"
          by (simp add: length_clearOverrides)
        show ?thesis
        proof (cases "snd (snd spliced)")
          case True
          from spliceLoop_removed [OF Inr True] le show ?thesis by auto
        next
          case False
          with step le2 show ?thesis by auto
        qed
      qed
    qed
  qed
qed

function processOverrides ::
  "'rx RegexEngine \<Rightarrow> DevSkimProblem list \<Rightarrow> error + DevSkimProblem list" where
  "processOverrides eng problems =
     (case overridesLoop eng problems 0 False of
        Inl e \<Rightarrow> Inl e
      | Inr result \<Rightarrow>
          if snd result then processOverrides eng (fst result) else Inr (fst result))"
  by pat_completeness auto
termination
proof (relation "measure (\<lambda>(eng, problems). length problems)", goal_cases)
  case 1
  show ?case by simp
next
  case (2 eng problems result)
  from overridesLoop_removed [OF 2(1) 2(2)] show ?case by simp
qed

declare processOverrides.simps [simp del]

section \<open>analyzeText\<close>

definition analyzeText ::
  "'rx DevSkimWorker \<Rightarrow> string \<Rightarrow> string \<Rightarrow> string \<Rightarrow> (error + DevSkimProblem list) option" where
  "analyzeText W documentContents langID documentURI =
     (case analysisRules W of
        None \<Rightarrow> Some (Inr [])
      | Some rules \<Rightarrow>
          if length rules > 0
          then (case ignoreFilesList (dswSettings W) of
                  None \<Rightarrow> Some (Inr [])
                | Some ignoreList \<Rightarrow>
                    if \<not> ignoreFile W documentURI ignoreList
                    then (case runAnalysis W documentContents langID documentURI of
                            None \<Rightarrow> None
                          | Some (Inl e) \<Rightarrow> Some (Inl e)
                          | Some (Inr problems) \<Rightarrow> Some (processOverrides (engine W) problems))
                    else Some (Inr []))
          else Some (Inr []))"

section \<open>recordCodeAction\<close>

text \<open>
  The cache \<open>codeActions\<close> is an object without prototype that maps a document URI to an
  object of the same kind, which maps a key to an \<open>AutoFix\<close>: two finite maps.
  \<open>computeKey\<close> (\<open>devskimObjects.ts\<close>) is a parameter.
\<close>

record AutoFix =
  label :: string
  documentVersion :: int
  fix_ruleId :: string
  edit :: DevSkimAutoFixEdit

text \<open>The decimal notation of two different numbers differs, so only finitely many
  ordinals are in use for a key.\<close>

lemma of_char_digitChar: "d < 10 \<Longrightarrow> (of_char (digitChar d) :: nat) = 48 + d"
  by (simp add: digitChar_def)

lemma digitsValue_snoc:
  "digitsValue (ds @ [c]) = 10 * digitsValue ds + (of_char c - 48)"
  by (simp add: digitsValue_def)

lemma digitsValue_toString10: "digitsValue (toString10 n) = n"
proof (induction n rule: toString10.induct)
  case (1 n)
  show ?case
  proof (cases "n < 10")
    case True
    then show ?thesis
      by (subst toString10.simps) (simp add: digitsValue_def of_char_digitChar)
  next
    case False
    have "digitsValue (toString10 n)
            = 10 * digitsValue (toString10 (n div 10)) + (of_char (digitChar (n mod 10)) - 48)"
      by (subst toString10.simps) (simp add: False digitsValue_snoc)
    also have "\<dots> = 10 * (n div 10) + n mod 10"
      using 1 [OF False] by (simp add: of_char_digitChar)
    finally show ?thesis by simp
  qed
qed

lemma toString10_inj: "toString10 m = toString10 n \<Longrightarrow> m = n"
  by (metis digitsValue_toString10)

lemma finite_ordinals:
  "finite {n. fmlookup edits (key @ toString10 n) \<noteq> None}"
proof -
  have "inj (\<lambda>n. key @ toString10 n)"
    by (rule injI) (drule same_append_eq [THEN iffD1], erule toString10_inj)
  then have "finite ((\<lambda>n. key @ toString10 n) -` fmdom' edits)"
    by (rule finite_vimageI [rotated]) simp
  moreover have "{n. fmlookup edits (key @ toString10 n) \<noteq> None}
                   = (\<lambda>n. key @ toString10 n) -` fmdom' edits"
    by (auto simp: fmlookup_dom'_iff)
  ultimately show ?thesis by simp
qed

text \<open>The loop \<open>while (edits[computeKey(range, diagnosticCode) + x.toString(10)]) x++\<close>.\<close>

function ordinalLoop :: "(string, AutoFix) fmap \<Rightarrow> string \<Rightarrow> nat \<Rightarrow> nat" where
  "ordinalLoop edits key x =
     (if fmlookup edits (key @ toString10 x) \<noteq> None then ordinalLoop edits key (Suc x) else x)"
  by pat_completeness auto
termination
proof (relation "measure (\<lambda>(edits, key, x).
          card {n. x \<le> n \<and> fmlookup edits (key @ toString10 n) \<noteq> None})", goal_cases)
  case 1
  show ?case by simp
next
  case (2 edits key x)
  have fin: "finite {n. x \<le> n \<and> fmlookup edits (key @ toString10 n) \<noteq> None}"
    using finite_ordinals [of edits key] by (rule rev_finite_subset) auto
  have "x \<in> {n. x \<le> n \<and> fmlookup edits (key @ toString10 n) \<noteq> None}"
    using 2 by simp
  moreover have "x \<notin> {n. Suc x \<le> n \<and> fmlookup edits (key @ toString10 n) \<noteq> None}"
    by simp
  moreover have "{n. Suc x \<le> n \<and> fmlookup edits (key @ toString10 n) \<noteq> None}
          \<subseteq> {n. x \<le> n \<and> fmlookup edits (key @ toString10 n) \<noteq> None}"
    by auto
  ultimately have "{n. Suc x \<le> n \<and> fmlookup edits (key @ toString10 n) \<noteq> None}
          \<subset> {n. x \<le> n \<and> fmlookup edits (key @ toString10 n) \<noteq> None}"
    by blast
  from psubset_card_mono [OF fin this] show ?case by simp
qed

declare ordinalLoop.simps [simp del]

definition editsOf ::
  "(string, (string, AutoFix) fmap) fmap \<Rightarrow> string \<Rightarrow> (string, AutoFix) fmap" where
  "editsOf codeActions documentURI =
     (case fmlookup codeActions documentURI of None \<Rightarrow> fmempty | Some edits \<Rightarrow> edits)"

definition recordCodeAction ::
  "(Range \<Rightarrow> string \<Rightarrow> string) \<Rightarrow> (string, (string, AutoFix) fmap) fmap \<Rightarrow> string \<Rightarrow> int
     \<Rightarrow> Range \<Rightarrow> string \<Rightarrow> DevSkimAutoFixEdit option \<Rightarrow> string option
     \<Rightarrow> (string, (string, AutoFix) fmap) fmap" where
  "recordCodeAction computeKey codeActions documentURI version rng diagnosticCode fix ruleID =
     (case fix of
        None \<Rightarrow> codeActions
      | Some f \<Rightarrow>
          (case ruleID of
             None \<Rightarrow> codeActions
           | Some rid \<Rightarrow>
               if rid = [] then codeActions
               else
                 let fixName =
                       (case edit_fixName f of
                          None \<Rightarrow> ''Fix this '' @ rid @ '' problem''
                        | Some n \<Rightarrow> if length n > 0 then n
                                    else ''Fix this '' @ rid @ '' problem'');
                     edits = editsOf codeActions documentURI;
                     x = ordinalLoop edits (computeKey rng diagnosticCode) 0
                 in fmupd documentURI
                      (fmupd (computeKey rng diagnosticCode @ toString10 x)
                         \<lparr>label = fixName, documentVersion = version, fix_ruleId = rid,
                          edit = f\<rparr>
                         edits)
                      codeActions))"

section \<open>A concrete worker for plain-text patterns\<close>

text \<open>
  An engine for concrete runs. It stands for XRegExp on the sources used below: a source of
  letters, digits, spaces and line feeds matches exactly its own text, leftmost first; the
  empty source matches the empty string at the cursor; the source \<open>(\<close> is an unterminated
  group, which XRegExp rejects with a SyntaxError. \<open>XRegExp.escape\<close> leaves letters and
  digits as they are. A search from beyond the end of the string fails.

  \<open>String.match\<close> is given alternatives separated by \<open>|\<close>. Alternatives without a
  metacharacter (letters, digits, \<open>-\<close>, \<open>_\<close>) are plain text: the search succeeds exactly
  when one of them occurs in the string. The engine takes on no other regular expression:
  for an alternative with a metacharacter it throws the SyntaxError, as \<open>String.match\<close>
  does for the unterminated group \<open>(\<close> and for the double quantifier of \<open>C++\<close>.
\<close>

definition literalExec :: "string \<Rightarrow> string \<Rightarrow> nat \<Rightarrow> (nat \<times> string) option" where
  "literalExec str rx pos =
     (if pos > length str then None
      else let i = indexOfFrom rx (drop pos str) pos
           in if i < 0 then None else Some (nat i, rx))"

fun replaceFirst :: "string \<Rightarrow> string \<Rightarrow> string \<Rightarrow> string" where
  "replaceFirst p r [] = (if p = [] then r else [])"
| "replaceFirst p r (c # cs) =
     (if startsWith p (c # cs) then r @ drop (length p) (c # cs)
      else c # replaceFirst p r cs)"

fun splitBar :: "string \<Rightarrow> string \<Rightarrow> string list" where
  "splitBar [] cur = [cur]"
| "splitBar (c # cs) cur =
     (if c = CHR ''|'' then cur # splitBar cs [] else splitBar cs (cur @ [c]))"

definition metacharacters :: string where
  "metacharacters = CHR 0x5C # ''^$.*+?()[]{}''"

definition plainText :: "string \<Rightarrow> bool" where
  "plainText s = list_all (\<lambda>c. c \<notin> set metacharacters) s"

definition literalMatch :: "string \<Rightarrow> string \<Rightarrow> bool option" where
  "literalMatch s regexString =
     (let alternatives = splitBar regexString []
      in if list_all plainText alternatives
         then Some (list_ex (\<lambda>alt. indexOf s alt > -1) alternatives)
         else None)"

definition literalEngine :: "string RegexEngine" where
  "literalEngine =
     \<lparr>XRegExp = (\<lambda>src flags. if src = ''('' then None else Some src),
      XRegExp_escape = (\<lambda>s. s),
      XRegExp_exec = literalExec,
      String_replace = (\<lambda>str rx rep. Some (replaceFirst rx rep str)),
      String_match = literalMatch\<rparr>"

text \<open>
  Modelled from the spec: \<open>DevSkimSuppression.isFindingCommented\<close> (\<open>suppressions.ts\<close> is
  not among the sources), for the plain directive of sections 4.C and 6 only: the text
  \<open>DevSkim: ignore\<close> followed by the rule id, after the finding and on its line. The
  finding is then suppressed and \<open>ruleColumn\<close> is the distance from the finding to the rule
  id, which is how \<open>runAnalysis\<close> uses it. Without such a directive nothing is suppressed and
  the column is \<open>-1\<close>.
\<close>

definition isFindingCommented_spec ::
  "nat \<Rightarrow> string \<Rightarrow> string \<Rightarrow> DevskimRuleSeverity \<Rightarrow> DevSkimSuppressionFinding" where
  "isFindingCommented_spec startPosition documentContents ruleID ruleSeverity =
     (let restOfLine = takeWhile (\<lambda>c. c \<noteq> LF) (drop startPosition documentContents);
          directive = indexOf restOfLine ''DevSkim: ignore''
      in if directive < 0 then \<lparr>showFinding = False, ruleColumn = -1\<rparr>
         else
           let idColumn = indexOf (drop (nat directive) restOfLine) ruleID
           in if idColumn < 0 then \<lparr>showFinding = False, ruleColumn = -1\<rparr>
              else \<lparr>showFinding = True, ruleColumn = directive + idColumn\<rparr>)"

text \<open>
  Modelled from the spec: \<open>PathOperations.ignoreFile\<close> (\<open>pathOperations.ts\<close> is not among
  the sources): the document is ignored when an entry of the ignore list occurs in its URI.
\<close>

definition ignoreFile_spec :: "string \<Rightarrow> string list \<Rightarrow> bool" where
  "ignoreFile_spec documentURI ignoreList =
     list_ex (\<lambda>entry. indexOf documentURI entry > -1) ignoreList"

definition plainSettings :: IDevSkimSettings where
  "plainSettings =
     \<lparr>ignoreFilesList = Some [], ignoreRulesList = [],
      enableBestPracticeRules = False, enableManualReviewRules = False\<rparr>"

text \<open>The worker of the concrete runs; its collaborator that authors suppression fixes
  adds none.\<close>

definition literalWorker :: "Rule list \<Rightarrow> string DevSkimWorker" where
  "literalWorker rules =
     \<lparr>engine = literalEngine,
      analysisRules = Some rules,
      dswSettings = plainSettings,
      isFindingCommented = isFindingCommented_spec,
      createActions = (\<lambda>ruleID documentContents index lineStart langID ruleSeverity. []),
      ignoreFile = ignoreFile_spec\<rparr>"

definition plainPattern :: "string \<Rightarrow> string \<Rightarrow> string list \<Rightarrow> Pattern" where
  "plainPattern kind p scopes =
     \<lparr>pat_type = kind, pat_pattern = p, pat_modifiers = None, pat_scopes = scopes\<rparr>"

definition plainRule :: "string \<Rightarrow> Pattern list \<Rightarrow> Rule" where
  "plainRule rid pats =
     \<lparr>rule_id = rid, rule_name = [], rule_description = [], rule_recommendation = [],
      rule_ruleInfo = [], rule_severity = ''critical'', rule_appliesTo = None,
      rule_overrides = None, rule_patterns = pats, rule_conditions = None,
      rule_fixIts = None\<rparr>"

definition plainProblem :: "string \<Rightarrow> Range \<Rightarrow> string list \<Rightarrow> DevSkimProblem" where
  "plainProblem rid rng ovs =
     \<lparr>message = [], source = [], ruleId = rid, severity = Critical, replacement = [],
      issueURL = [], problem_range = rng, problem_fixes = [], overrides = ovs,
      suppressedFindingRange = None\<rparr>"

text \<open>The problems of a run that returned; none when it threw or did not return.\<close>

definition problemsOf :: "(error + DevSkimProblem list) option \<Rightarrow> DevSkimProblem list" where
  "problemsOf r = (case r of Some (Inr ps) \<Rightarrow> ps | _ \<Rightarrow> [])"

text \<open>A rule whose only pattern is the empty regular expression, which matches the empty
  string at every position.\<close>

definition emptyPatternRule :: Rule where
  "emptyPatternRule = plainRule ''DS1'' [plainPattern ''regex'' [] [''all'']]"

text \<open>A key function, a fix edit and a cache with one recorded action, for concrete
  runs of \<open>recordCodeAction\<close>.\<close>

definition plainKey :: "Range \<Rightarrow> string \<Rightarrow> string" where
  "plainKey rng diagnosticCode = diagnosticCode @ '':''"

definition strlcpyEdit :: DevSkimAutoFixEdit where
  "strlcpyEdit =
     \<lparr>edit_text = ''strlcpy'', edit_fixName = Some ''DevSkim: strlcpy'',
      edit_range = \<lparr>range_start = \<lparr>line = 0, character = 0\<rparr>,
                     range_end = \<lparr>line = 0, character = 6\<rparr>\<rparr>\<rparr>"

definition oneAction :: "(string, (string, AutoFix) fmap) fmap" where
  "oneAction =
     fmupd ''f.c''
       (fmupd ''DS1:0''
          \<lparr>label = ''DevSkim: strlcpy'', documentVersion = 1, fix_ruleId = ''DS1'',
           edit = strlcpyEdit\<rparr>
          fmempty)
       fmempty"





section \<open>Rules whose regular expressions construct and advance\<close>






definition fixItsOf :: "Rule \<Rightarrow> FixIt list" where
  "fixItsOf rule = (case rule_fixIts rule of None \<Rightarrow> [] | Some fs \<Rightarrow> fs)"




definition rulesOf :: "'rx DevSkimWorker \<Rightarrow> Rule list" where
  "rulesOf W = (case analysisRules W of None \<Rightarrow> [] | Some rules \<Rightarrow> rules)"





section \<open>The fixes and the origin of a problem\<close>

text \<open>
  The fix edit that \<open>MakeFixes\<close> derives from one template, when its regular expression
  constructs and the substitution does not throw; \<open>ruleFixEdits\<close> are the edits of all the
  templates of a rule, in the order the rule lists them.
\<close>

definition fixEdit ::
  "'rx RegexEngine \<Rightarrow> string \<Rightarrow> Range \<Rightarrow> FixIt \<Rightarrow> DevSkimAutoFixEdit option" where
  "fixEdit eng replacementSource rng f =
     (case MakeRegex eng (pat_type (fix_pattern f)) (pat_pattern (fix_pattern f))
             (pat_modifiers (fix_pattern f)) False of
        Inl e \<Rightarrow> None
      | Inr rx \<Rightarrow>
          (case String_replace eng replacementSource rx (fix_replacement f) of
             None \<Rightarrow> None
           | Some text \<Rightarrow>
               Some \<lparr>edit_text = text,
                     edit_fixName = Some (''DevSkim: '' @ fix_name f),
                     edit_range = rng\<rparr>))"

definition ruleFixEdits ::
  "'rx RegexEngine \<Rightarrow> Rule \<Rightarrow> string \<Rightarrow> Range \<Rightarrow> DevSkimAutoFixEdit list" where
  "ruleFixEdits eng rule replacementSource rng =
     List.map_filter (fixEdit eng replacementSource rng) (fixItsOf rule)"

text \<open>
  A problem \<open>p\<close> of the result is produced by the match at offset \<open>index\<close> of a pattern of a
  rule when the loop body pushed it for that match; \<open>processOverrides\<close> may have cleared its
  \<open>overrides\<close> since.
\<close>

definition producedBy ::
  "'rx DevSkimWorker \<Rightarrow> string \<Rightarrow> string \<Rightarrow> Rule \<Rightarrow> Pattern \<Rightarrow> nat \<Rightarrow> string
     \<Rightarrow> DevSkimProblem \<Rightarrow> bool" where
  "producedBy W documentContents langID rule pat index m0 p =
     (\<exists>pushed q.
        handleMatch W rule pat documentContents langID index m0 = Some (Inr pushed) \<and>
        q \<in> set pushed \<and> (p = q \<or> p = q\<lparr>overrides := []\<rparr>))"

text \<open>A rule with two fix templates, \<open>strlcpy\<close> listed first and \<open>strcpy_s\<close> second.\<close>

definition twoFixRule :: Rule where
  "twoFixRule =
     (plainRule ''DS1'' [plainPattern ''substring'' ''strcpy'' [''code'']])
       \<lparr>rule_fixIts :=
          Some [\<lparr>fix_name = ''strlcpy'',
                 fix_pattern = plainPattern ''substring'' ''strcpy'' [],
                 fix_replacement = ''strlcpy''\<rparr>,
                \<lparr>fix_name = ''strcpy_s'',
                 fix_pattern = plainPattern ''substring'' ''strcpy'' [],
                 fix_replacement = ''strcpy_s''\<rparr>]\<rparr>"

section \<open>Properties of MakeRegex\<close>

lemma regexModifierLoop_acc:
  "regexModifierLoop ms forX acc = acc @ specFlags forX ms"
  by (induction ms arbitrary: acc forX) (simp_all add: specFlags_def specFlag_def)

lemma kindOf_source:
  "(let t = toLowerCase regexType
    in if t = ''regex-word'' then wordBoundary @ pattern @ wordBoundary
       else if t = ''string'' then wordBoundary @ XRegExp_escape eng pattern @ wordBoundary
       else if t = ''substring'' then XRegExp_escape eng pattern
       else pattern) = specSource eng (kindOf regexType) pattern"
  by (simp add: kindOf_def Let_def)

text \<open>
  Claim C9. \<open>MakeRegex\<close> compiles exactly the source and the flags of the mapping of
  section 4.B: every modifier is copied as it is, except \<open>d\<close>, which becomes \<open>s\<close> for
  XRegExp and disappears otherwise; the source is the pattern for kind regex and for an
  unknown kind, the pattern between two \<open>\b\<close> for regex-word, the escaped pattern between
  two \<open>\b\<close> for string and the escaped pattern for substring, the kind being read without
  regard to case. A failing compilation is the thrown SyntaxError. A missing modifier list
  gives no flags.
\<close>

theorem MakeRegex_mapping:
  "MakeRegex eng regexType pattern modifiers forXregExp =
     (case XRegExp eng (specSource eng (kindOf regexType) pattern)
             (case modifiers of None \<Rightarrow> [] | Some ms \<Rightarrow> specFlags forXregExp ms) of
        None \<Rightarrow> Inl SyntaxError
      | Some rx \<Rightarrow> Inr rx)"
proof -
  have flags: "(case modifiers of None \<Rightarrow> [] | Some ms \<Rightarrow> regexModifierLoop ms forXregExp [])
      = (case modifiers of None \<Rightarrow> [] | Some ms \<Rightarrow> specFlags forXregExp ms)"
    by (cases modifiers) (simp_all add: regexModifierLoop_acc)
  show ?thesis
    unfolding MakeRegex_def flags
    using kindOf_source [of regexType pattern eng]
    by (simp add: Let_def)
qed

section \<open>The scenarios of the specification\<close>

text \<open>
  Scenarios 1 to 5 of section 8, run on the concrete worker: a match in code, the same
  match inside a line comment, a match of comment scope inside a block comment, a
  suppressed finding and its marker, and an overriding rule.
\<close>

lemma scenario_plain_match:
  "analyzeText
     (literalWorker [plainRule ''DS1'' [plainPattern ''substring'' ''strcpy'' [''code'']]])
     (''strcpy(a,b);'' @ [LF]) ''c'' ''f.c''
   = Some (Inr [plainProblem ''DS1'' (Range_create 0 0 0 6) []])"
  by code_simp

lemma scenario_match_in_line_comment:
  "analyzeText
     (literalWorker [plainRule ''DS1'' [plainPattern ''substring'' ''strcpy'' [''code'']]])
     (''// strcpy(a,b)'' @ [LF]) ''c'' ''f.c''
   = Some (Inr [])"
  by code_simp

lemma scenario_match_in_block_comment:
  "analyzeText
     (literalWorker [plainRule ''DS1'' [plainPattern ''substring'' ''TODO'' [''comment'']]])
     (''/* TODO use strcpy */'' @ [LF]) ''cpp'' ''f.cpp''
   = Some (Inr [plainProblem ''DS1'' (Range_create 0 3 0 7) []])"
  by code_simp

lemma scenario_suppression:
  "analyzeText
     (literalWorker [plainRule ''DS001'' [plainPattern ''substring'' ''strcpy'' [''code'']]])
     (''strcpy(a,b); // DevSkim: ignore DS001'' @ [LF]) ''c'' ''f.c''
   = Some (Inr [(plainProblem ''DS001'' (Range_create 0 32 0 37) [])
                  \<lparr>severity := WarningInfo,
                   suppressedFindingRange := Some (Range_create 0 0 0 6)\<rparr>])"
  by code_simp

lemma scenario_override:
  "analyzeText
     (literalWorker
        [plainRule ''DS-generic-md5'' [plainPattern ''substring'' ''MD5'' [''all'']],
         (plainRule ''DS-java-md5'' [plainPattern ''substring'' ''MD5'' [''all'']])
           \<lparr>rule_overrides := Some [''DS-generic-md5'']\<rparr>])
     (''MD5'' @ [LF]) ''java'' ''f.java''
   = Some (Inr [plainProblem ''DS-java-md5'' (Range_create 0 0 0 3) []])"
  by code_simp

section \<open>Override resolution\<close>

text \<open>
  Three rules \<open>A\<close>, \<open>B\<close> and \<open>C\<close> match \<open>MD5\<close>, and \<open>C\<close> overrides \<open>A\<close> and \<open>B\<close>. On the
  document \<open>MD5\<close> the analysis finds these three problems at the same place, in rule order.
\<close>

lemma runAnalysis_three_rules:
  "runAnalysis
     (literalWorker
        [plainRule ''A'' [plainPattern ''substring'' ''MD5'' [''all'']],
         plainRule ''B'' [plainPattern ''substring'' ''MD5'' [''all'']],
         (plainRule ''C'' [plainPattern ''substring'' ''MD5'' [''all'']])
           \<lparr>rule_overrides := Some [''A'', ''B'']\<rparr>])
     (''MD5'' @ [LF]) ''java'' ''f.java''
   = Some (Inr [plainProblem ''A'' (Range_create 0 0 0 3) [],
                plainProblem ''B'' (Range_create 0 0 0 3) [],
                plainProblem ''C'' (Range_create 0 0 0 3) [''A'', ''B'']])"
  by code_simp

text \<open>
  Claim C1 fails on the code. \<open>processOverrides\<close> on the three problems above removes the
  problem of rule \<open>A\<close> and keeps the problem of rule \<open>B\<close>, although \<open>C\<close> survives, overrides
  \<open>B\<close> and starts at the same position: after \<open>splice(x, 1)\<close> the inner loop goes on with
  \<open>x + 1\<close> and so skips the element that moved into place \<open>x\<close>, and the overrides of \<open>C\<close>
  are cleared before the recursive call, which therefore removes nothing more.
\<close>

theorem processOverrides_skips_after_splice:
  "processOverrides literalEngine
     [plainProblem ''A'' (Range_create 0 0 0 3) [],
      plainProblem ''B'' (Range_create 0 0 0 3) [],
      plainProblem ''C'' (Range_create 0 0 0 3) [''A'', ''B'']]
   = Inr [plainProblem ''B'' (Range_create 0 0 0 3) [],
          plainProblem ''C'' (Range_create 0 0 0 3) []]"
  by code_simp

text \<open>
  The search of the rule id also removes a problem whose rule is not among the overrides:
  \<open>DS1\<close> occurs in \<open>DS12\<close>.
\<close>

lemma processOverrides_removes_by_substring:
  "processOverrides literalEngine
     [plainProblem ''DS12'' (Range_create 0 0 0 3) [],
      plainProblem ''DS2'' (Range_create 0 0 0 3) [''DS1'']]
   = Inr [plainProblem ''DS2'' (Range_create 0 0 0 3) []]"
  by code_simp

text \<open>
  The first part of claim C1 holds: no problem of a result has overrides left. A pass
  that removes nothing visits every problem and clears its overrides, and a pass that
  removes something is followed by another pass.
\<close>

lemma spliceLoop_flag:
  "spliceLoop eng rs rng problems x cur removed = Inr r \<Longrightarrow> removed \<Longrightarrow> snd (snd r)"
proof (induction eng rs rng problems x cur removed arbitrary: r rule: spliceLoop.induct)
  case (1 eng rs rng problems x cur removed)
  show ?case
  proof (cases "x < length problems")
    case False
    with 1(3,4) show ?thesis by (auto simp: spliceLoop_end)
  next
    case True
    show ?thesis
    proof (cases "String_match eng (ruleId (problems ! x)) rs")
      case None
      with 1(3) True show ?thesis by (simp add: spliceLoop_throw)
    next
      case (Some m)
      show ?thesis
      proof (cases "m \<and> sameStart (problems ! x) rng")
        case hit: True
        from 1(3) have "spliceLoop eng rs rng (take x problems @ drop (Suc x) problems) (Suc x)
                          (afterSplice cur x) True = Inr r"
          by (simp add: spliceLoop_hit [OF True Some hit])
        from 1(1) [OF True Some hit this] show ?thesis by simp
      next
        case miss: False
        from 1(3) have "spliceLoop eng rs rng problems (Suc x) cur removed = Inr r"
          by (simp add: spliceLoop_miss [OF True Some miss])
        from 1(2) [OF True Some miss this 1(4)] show ?thesis .
      qed
    qed
  qed
qed

lemma spliceLoop_unchanged:
  "spliceLoop eng rs rng problems x cur removed = Inr r \<Longrightarrow> \<not> snd (snd r) \<Longrightarrow>
   fst r = problems \<and> fst (snd r) = cur"
proof (induction eng rs rng problems x cur removed arbitrary: r rule: spliceLoop.induct)
  case (1 eng rs rng problems x cur removed)
  show ?case
  proof (cases "x < length problems")
    case False
    with 1(3) show ?thesis by (auto simp: spliceLoop_end)
  next
    case True
    show ?thesis
    proof (cases "String_match eng (ruleId (problems ! x)) rs")
      case None
      with 1(3) True show ?thesis by (simp add: spliceLoop_throw)
    next
      case (Some m)
      show ?thesis
      proof (cases "m \<and> sameStart (problems ! x) rng")
        case hit: True
        from 1(3) have "spliceLoop eng rs rng (take x problems @ drop (Suc x) problems) (Suc x)
                          (afterSplice cur x) True = Inr r"
          by (simp add: spliceLoop_hit [OF True Some hit])
        from spliceLoop_flag [OF this] 1(4) show ?thesis by simp
      next
        case miss: False
        from 1(3) have "spliceLoop eng rs rng problems (Suc x) cur removed = Inr r"
          by (simp add: spliceLoop_miss [OF True Some miss])
        from 1(2) [OF True Some miss this 1(4)] show ?thesis .
      qed
    qed
  qed
qed

lemma overridesLoop_flag:
  "overridesLoop eng problems i removed = Inr r \<Longrightarrow> removed \<Longrightarrow> snd r"
proof (induction eng problems i removed arbitrary: r rule: overridesLoop.induct)
  case (1 eng problems i removed)
  show ?case
  proof (cases "i < length problems")
    case False
    with 1(3,4) show ?thesis by (auto simp: overridesLoop_end)
  next
    case True
    show ?thesis
    proof (cases "overrides (problems ! i) = []")
      case none: True
      from 1(3) have "overridesLoop eng problems (Suc i) removed = Inr r"
        by (simp add: overridesLoop_skip [OF True none])
      from 1(2) [OF True _ this 1(4)] none show ?thesis by simp
    next
      case ov: False
      show ?thesis
      proof (cases "spliceLoop eng (overridesRegex (overrides (problems ! i)))
                      (anchorOf (problems ! i)) problems 0 (Some i) removed")
        case (Inl e)
        with 1(3) show ?thesis by (simp add: overridesLoop_throw [OF True ov Inl])
      next
        case (Inr spliced)
        from 1(3) have rest: "overridesLoop eng (clearOverrides (fst spliced) (fst (snd spliced)))
                          (Suc i) (snd (snd spliced)) = Inr r"
          by (simp add: overridesLoop_step [OF True ov Inr])
        from spliceLoop_flag [OF Inr 1(4)] have "snd (snd spliced)" .
        from 1(1) [OF True _ Inr rest this] ov show ?thesis by simp
      qed
    qed
  qed
qed

lemma overridesLoop_clears:
  "overridesLoop eng problems i removed = Inr r \<Longrightarrow> \<not> snd r \<Longrightarrow>
   (\<And>j. j < i \<Longrightarrow> j < length problems \<Longrightarrow> overrides (problems ! j) = []) \<Longrightarrow>
   p \<in> set (fst r) \<Longrightarrow> overrides p = []"
proof (induction eng problems i removed arbitrary: r rule: overridesLoop.induct)
  case (1 eng problems i removed)
  show ?case
  proof (cases "i < length problems")
    case False
    with 1(3,6) have "p \<in> set problems" by (auto simp: overridesLoop_end)
    then obtain j where "j < length problems" "p = problems ! j"
      by (auto simp: in_set_conv_nth)
    with False 1(5) [of j] show ?thesis by simp
  next
    case True
    show ?thesis
    proof (cases "overrides (problems ! i) = []")
      case none: True
      from 1(3) have rest: "overridesLoop eng problems (Suc i) removed = Inr r"
        by (simp add: overridesLoop_skip [OF True none])
      have pre: "overrides (problems ! j) = []" if "j < Suc i" "j < length problems" for j
        using that none 1(5) [of j] by (cases "j = i") auto
      from 1(2) [OF True _ rest 1(4) pre 1(6)] none show ?thesis by simp
    next
      case ov: False
      show ?thesis
      proof (cases "spliceLoop eng (overridesRegex (overrides (problems ! i)))
                      (anchorOf (problems ! i)) problems 0 (Some i) removed")
        case (Inl e)
        with 1(3) show ?thesis by (simp add: overridesLoop_throw [OF True ov Inl])
      next
        case (Inr spliced)
        from 1(3) have rest: "overridesLoop eng (clearOverrides (fst spliced) (fst (snd spliced)))
                          (Suc i) (snd (snd spliced)) = Inr r"
          by (simp add: overridesLoop_step [OF True ov Inr])
        have quiet: "\<not> snd (snd spliced)"
          using overridesLoop_flag [OF rest] 1(4) by blast
        from spliceLoop_unchanged [OF Inr quiet]
        have same: "fst spliced = problems" "fst (snd spliced) = Some i" by simp_all
        have cl: "clearOverrides (fst spliced) (fst (snd spliced))
                    = problems[i := (problems ! i)\<lparr>overrides := []\<rparr>]"
          by (simp add: same clearOverrides_def)
        have pre: "overrides (clearOverrides (fst spliced) (fst (snd spliced)) ! j) = []"
          if "j < Suc i" "j < length (clearOverrides (fst spliced) (fst (snd spliced)))" for j
          using that 1(5) [of j] True unfolding cl by (cases "j = i") auto
        from 1(1) [OF True _ Inr rest 1(4) pre 1(6)] ov show ?thesis by simp
      qed
    qed
  qed
qed

lemma processOverrides_clears_overrides:
  "processOverrides eng problems = Inr out \<Longrightarrow> p \<in> set out \<Longrightarrow> overrides p = []"
proof (induction eng problems arbitrary: out rule: processOverrides.induct)
  case (1 eng problems)
  show ?case
  proof (cases "overridesLoop eng problems 0 False")
    case (Inl e)
    with 1(2) show ?thesis by (subst (asm) processOverrides.simps) simp
  next
    case (Inr result)
    show ?thesis
    proof (cases "snd result")
      case True
      with 1(2) Inr have "processOverrides eng (fst result) = Inr out"
        by (subst (asm) processOverrides.simps) simp
      from 1(1) [OF Inr True this 1(3)] show ?thesis .
    next
      case False
      with 1(2) Inr have "out = fst result"
        by (subst (asm) processOverrides.simps) simp
      with 1(3) have "p \<in> set (fst result)" by simp
      from overridesLoop_clears [OF Inr False _ this] show ?thesis by simp
    qed
  qed
qed

section \<open>The region of a condition\<close>

text \<open>Every non-empty \<open>search_in\<close> is truthy, so it selects the lines of the finding.\<close>

lemma conditionRegion_truthy:
  "s \<noteq> [] \<Longrightarrow>
   conditionRegion documentContents findingRange (Some s) =
     (int (GetDocumentPosition documentContents (line (range_start findingRange))),
      int (GetDocumentPosition documentContents (line (range_end findingRange) + 1)))"
  by (simp add: conditionRegion_def Let_def)

text \<open>The empty string is the only \<open>search_in\<close> that reaches the other branches; it is
  neither \<open>finding-only\<close> nor a match of the region pattern, and the two positions stay the
  line numbers of the finding.\<close>

lemma conditionRegion_empty:
  "conditionRegion documentContents findingRange (Some []) =
     (line (range_start findingRange), line (range_end findingRange))"
  by (simp add: conditionRegion_def Let_def)

text \<open>
  Claim C3 fails on the code. In the document \<open>x y\<close> the finding is the \<open>y\<close> at characters
  2 to 3 of line 0, and the condition looks for \<open>x\<close> with \<open>search_in = "finding-only"\<close>. The
  region the code scans is the whole line, offsets 0 to 4, not offsets 2 to 3, and the \<open>x\<close>
  at offset 0, outside the finding, satisfies the condition.
\<close>

theorem finding_only_scans_whole_line:
  "conditionRegion (''x y'' @ [LF]) (Range_create 0 2 0 3) (Some ''finding-only'') = (0, 4) \<and>
   MatchesConditions literalEngine
     (Some [\<lparr>cond_pattern = plainPattern ''substring'' ''x'' [''all''],
             cond_search_in = Some ''finding-only'', cond_negateFinding = None\<rparr>])
     (''x y'' @ [LF]) (Range_create 0 2 0 3) ''c''
   = Some (Inr True)"
  by code_simp

text \<open>
  Claim C4 fails on the code. The document has the lines \<open>open\<close>, \<open>x\<close> and \<open>close\<close>; the
  finding is \<open>open\<close> on line 0, and the condition requires that \<open>close\<close> is absent from
  \<open>finding-region(0,2)\<close>, which is lines 0 to 2, offsets 0 to 13. The code scans the line
  of the finding only, offsets 0 to 5; the \<open>close\<close> at offset 7 is beyond it, and the
  condition holds.
\<close>

theorem finding_region_scans_finding_lines:
  "conditionRegion (''open'' @ [LF] @ ''x'' @ [LF] @ ''close'' @ [LF]) (Range_create 0 0 0 4)
     (Some ''finding-region(0,2)'') = (0, 5) \<and>
   GetDocumentPosition (''open'' @ [LF] @ ''x'' @ [LF] @ ''close'' @ [LF]) (0 + 2 + 1) = 13 \<and>
   MatchesConditions literalEngine
     (Some [\<lparr>cond_pattern = plainPattern ''substring'' ''close'' [''all''],
             cond_search_in = Some ''finding-region(0,2)'', cond_negateFinding = Some True\<rparr>])
     (''open'' @ [LF] @ ''x'' @ [LF] @ ''close'' @ [LF]) (Range_create 0 0 0 4) ''c''
   = Some (Inr True)"
  by code_simp

section \<open>The range of a match over several lines\<close>

text \<open>
  The end line of a match is its start line plus the line breaks of the matched text. When
  the matched text has a line break, the end column is the length of the match, minus the
  offset of the first line feed at or after the start of the match, minus one.
\<close>

lemma matchRange_lineEnd:
  "line (range_end (matchRange documentContents index m0)) =
     line (range_start (matchRange documentContents index m0))
       + int (countLinebreaks (take (length m0) (drop index documentContents)))"
  by (simp add: matchRange_def Range_create_def GetLineNumber_def Let_def)

lemma matchRange_columnEnd_multiline:
  "countLinebreaks (take (length m0) (drop index documentContents)) \<noteq> 0 \<Longrightarrow>
   character (range_end (matchRange documentContents index m0)) =
     int (length m0) - indexOf (drop index documentContents) [LF] - 1"
  by (simp add: matchRange_def Range_create_def GetLineNumber_def Let_def)

text \<open>
  Claim C6 fails on the code. The pattern is the three lines \<open>a\<close>, \<open>b\<close>, \<open>c\<close>, and so is the
  document. The match has length 5 and its last line feed is at offset 3, so the end column
  of the claim is \<open>5 - 3 - 1 = 1\<close>. The code subtracts the offset of the first line feed
  after the start of the match and reports column 3. The end line, 2, is right.
\<close>

theorem multiline_columnEnd_uses_first_newline:
  "map problem_range
     (problemsOf (analyzeText
        (literalWorker
           [plainRule ''DS1''
              [plainPattern ''regex'' [CHR ''a'', LF, CHR ''b'', LF, CHR ''c''] [''all'']]])
        [CHR ''a'', LF, CHR ''b'', LF, CHR ''c''] ''c'' ''f.c''))
   = [Range_create 0 0 2 3] \<and>
   int (length [CHR ''a'', LF, CHR ''b'', LF, CHR ''c''])
     - lastIndexOf [CHR ''a'', LF, CHR ''b'', LF, CHR ''c''] [LF] - 1 = 1"
  by code_simp

section \<open>The order of the fixes\<close>

lemma map_filter_snoc:
  "List.map_filter f (xs @ [x]) =
     List.map_filter f xs @ (case f x of None \<Rightarrow> [] | Some y \<Rightarrow> [y])"
  by (simp add: List.map_filter_def split: option.splits)

lemma MakeFixes_loop_order:
  "n \<le> length fixIts \<Longrightarrow> MakeFixes_loop eng fixIts n src rng acc = Inr fs \<Longrightarrow>
   fs = acc @ rev (List.map_filter (fixEdit eng src rng) (take n fixIts))"
proof (induction n arbitrary: acc)
  case 0
  then show ?case by (simp add: List.map_filter_def)
next
  case (Suc n)
  then have n: "n < length fixIts" by simp
  from Suc.prems(2) obtain rx where
    rx: "MakeRegex eng (pat_type (fix_pattern (fixIts ! n))) (pat_pattern (fix_pattern (fixIts ! n)))
           (pat_modifiers (fix_pattern (fixIts ! n))) False = Inr rx"
    by (auto simp: Let_def split: sum.splits)
  show ?case
  proof (cases "String_replace eng src rx (fix_replacement (fixIts ! n))")
    case None
    with Suc.prems(2) rx have "MakeFixes_loop eng fixIts n src rng acc = Inr fs"
      by (simp add: Let_def)
    from Suc.IH [OF _ this] n show ?thesis
      by (simp add: take_Suc_conv_app_nth map_filter_snoc fixEdit_def rx None)
  next
    case (Some newText)
    with Suc.prems(2) rx have "MakeFixes_loop eng fixIts n src rng
        (acc @ [\<lparr>edit_text = newText, edit_fixName = Some (''DevSkim: '' @ fix_name (fixIts ! n)),
                 edit_range = rng\<rparr>]) = Inr fs"
      by (simp add: Let_def)
    from Suc.IH [OF _ this] n show ?thesis
      by (simp add: take_Suc_conv_app_nth map_filter_snoc fixEdit_def rx Some)
  qed
qed

lemma MakeFixes_order:
  "MakeFixes eng rule src rng = Inr fs \<Longrightarrow>
   fs = rev (List.map_filter (fixEdit eng src rng) (fixItsOf rule))"
proof (cases "rule_fixIts rule")
  case None
  assume "MakeFixes eng rule src rng = Inr fs"
  with None show ?thesis by (simp add: MakeFixes_def fixItsOf_def List.map_filter_def)
next
  case (Some fixIts)
  assume a: "MakeFixes eng rule src rng = Inr fs"
  show ?thesis
  proof (cases "fixIts = []")
    case True
    with a Some show ?thesis by (simp add: MakeFixes_def fixItsOf_def List.map_filter_def)
  next
    case False
    with a Some have "MakeFixes_loop eng fixIts (length fixIts) src rng [] = Inr fs"
      by (simp add: MakeFixes_def)
    from MakeFixes_loop_order [OF _ this] show ?thesis by (simp add: fixItsOf_def Some)
  qed
qed

lemma handleMatch_live:
  assumes "handleMatch W rule pat doc lang index m0 = Some (Inr pushed)"
    and "q \<in> set pushed" and "suppressedFindingRange q = None"
  shows "MatchIsInScope lang (take index doc) (matchNewlineIndex doc index) (pat_scopes pat) \<and>
         ruleId q = rule_id rule \<and> problem_range q = matchRange doc index m0 \<and>
         problem_fixes q =
           rev (List.map_filter
                  (fixEdit (engine W) (take (length m0) (drop index doc))
                     (matchRange doc index m0))
                  (fixItsOf rule)) @
           createActions W (rule_id rule) doc index
             (line (range_start (matchRange doc index m0))) lang
             (MapRuleSeverity (rule_severity rule))"
proof -
  have marker: "suppressedFindingRange (MakeProblem r s g (Some x)) \<noteq> None" for r s g x
    by (simp add: MakeProblem_def)
  show ?thesis
  proof (cases "\<not> showFinding (isFindingCommented W index doc (rule_id rule)
                     (MapRuleSeverity (rule_severity rule))) \<and>
               MatchIsInScope lang (take index doc) (matchNewlineIndex doc index) (pat_scopes pat)")
    case False
    with assms(1) have "\<forall>x \<in> set pushed. suppressedFindingRange x \<noteq> None"
      by (auto simp: handleMatch_def Let_def MakeProblem_def split: if_splits)
    with assms(2,3) show ?thesis by blast
  next
    case True
    show ?thesis
    proof (cases "MatchesConditions (engine W)
                    (Some (case rule_conditions rule of None \<Rightarrow> [] | Some cs \<Rightarrow> cs))
                    doc (matchRange doc index m0) lang")
      case None
      with assms(1) True show ?thesis by (simp add: handleMatch_def Let_def)
    next
      case (Some r)
      show ?thesis
      proof (cases r)
        case (Inl e)
        with assms(1) True Some show ?thesis by (simp add: handleMatch_def Let_def)
      next
        case (Inr ok)
        show ?thesis
        proof (cases ok)
          case False
          with assms(1) True Some Inr
          have "\<forall>x \<in> set pushed. suppressedFindingRange x \<noteq> None"
            by (auto simp: handleMatch_def Let_def MakeProblem_def split: if_splits)
          with assms(2,3) show ?thesis by blast
        next
          case ok: True
          show ?thesis
          proof (cases "MakeFixes (engine W) rule (take (length m0) (drop index doc))
                          (matchRange doc index m0)")
            case (Inl e)
            with assms(1) True Some Inr ok show ?thesis by (simp add: handleMatch_def Let_def)
          next
            case fs: (Inr fs)
            from MakeFixes_order [OF fs] assms(1,2) True Some Inr ok fs
            show ?thesis
              by (auto simp: handleMatch_def Let_def MakeProblem_def)
          qed
        qed
      qed
    qed
  qed
qed

text \<open>Every problem of the result was pushed by the loop body for some match.\<close>

lemma matchLoop_provenance:
  assumes "matchLoop W rule pat rx doc lang pos ps = Some (Inr out)" and "p \<in> set out"
  shows "p \<in> set ps \<or>
         (\<exists>index m0 pushed.
            handleMatch W rule pat doc lang index m0 = Some (Inr pushed) \<and> p \<in> set pushed)"
proof -
  have "r = Inr out \<longrightarrow> p \<in> set out \<longrightarrow>
          p \<in> set ps \<or>
          (\<exists>index m0 pushed.
             handleMatch W rule pat doc lang index m0 = Some (Inr pushed) \<and> p \<in> set pushed)"
    if "matchLoop W rule pat rx doc lang pos ps = Some r" for r
    using that
  proof (induction arbitrary: out rule: matchLoop.raw_induct [rotated 1, consumes 1])
    case (1 loop W rule pat rx doc lang pos ps r)
    show ?case
    proof (cases "XRegExp_exec (engine W) doc rx pos")
      case None
      with 1(2) show ?thesis by auto
    next
      case (Some m)
      show ?thesis
      proof (cases "handleMatch W rule pat doc lang (fst m) (snd m)")
        case None
        with 1(2) Some show ?thesis by simp
      next
        case h: (Some hr)
        show ?thesis
        proof (cases hr)
          case (Inl e)
          with 1(2) Some h show ?thesis by auto
        next
          case (Inr pushed)
          with 1(2) Some h
          have "loop W rule pat rx doc lang (fst m + length (snd m)) (ps @ pushed) = Some r"
            by simp
          from 1(1) [OF this, of out] h Inr show ?thesis by auto
        qed
      qed
    qed
  qed
  from this [OF assms(1)] assms(2) show ?thesis by blast
qed

lemma patternsLoop_provenance:
  assumes "patternsLoop W rule pats doc lang ps = Some (Inr out)" and "p \<in> set out"
  shows "p \<in> set ps \<or>
         (\<exists>pat \<in> set pats. \<exists>index m0 pushed.
            handleMatch W rule pat doc lang index m0 = Some (Inr pushed) \<and> p \<in> set pushed)"
  using assms
proof (induction pats arbitrary: ps)
  case Nil
  then show ?case by simp
next
  case (Cons pat pats)
  from Cons.prems(1) obtain rx mid where
    mid: "matchLoop W rule pat rx doc lang 0 ps = Some (Inr mid)"
    and rest: "patternsLoop W rule pats doc lang mid = Some (Inr out)"
    by (auto split: sum.splits option.splits)
  from Cons.IH [OF rest Cons.prems(2)] matchLoop_provenance [OF mid, of p]
  show ?case by auto
qed

lemma rulesLoop_provenance:
  assumes "rulesLoop W rules doc lang uri ps = Some (Inr out)" and "p \<in> set out"
  shows "p \<in> set ps \<or>
         (\<exists>rule \<in> set rules. \<exists>pat \<in> set (rule_patterns rule). \<exists>index m0 pushed.
            handleMatch W rule pat doc lang index m0 = Some (Inr pushed) \<and> p \<in> set pushed)"
  using assms
proof (induction rules arbitrary: ps)
  case Nil
  then show ?case by simp
next
  case (Cons rule rules)
  show ?case
  proof (cases "rule_id rule \<notin> set (ignoreRulesList (dswSettings W)) \<and>
         AppliesToLangOrFile lang (rule_appliesTo rule) uri \<and>
         RuleSeverityEnabled (dswSettings W) (MapRuleSeverity (rule_severity rule))")
    case False
    with Cons.prems(1) have "rulesLoop W rules doc lang uri ps = Some (Inr out)" by auto
    from Cons.IH [OF this Cons.prems(2)] show ?thesis by auto
  next
    case True
    with Cons.prems(1) obtain mid where
      mid: "patternsLoop W rule (rule_patterns rule) doc lang ps = Some (Inr mid)"
      and rest: "rulesLoop W rules doc lang uri mid = Some (Inr out)"
      by (auto split: sum.splits option.splits)
    from Cons.IH [OF rest Cons.prems(2)] patternsLoop_provenance [OF mid, of p]
    show ?thesis by auto
  qed
qed

lemma spliceLoop_subset:
  "spliceLoop eng rs rng problems x cur removed = Inr r \<Longrightarrow> set (fst r) \<subseteq> set problems"
proof (induction eng rs rng problems x cur removed arbitrary: r rule: spliceLoop.induct)
  case (1 eng rs rng problems x cur removed)
  have cut: "set (take x problems @ drop (Suc x) problems) \<subseteq> set problems"
    using set_take_subset [of x problems] set_drop_subset [of "Suc x" problems] by auto
  show ?case
  proof (cases "x < length problems")
    case False
    with 1(3) show ?thesis by (auto simp: spliceLoop_end)
  next
    case True
    show ?thesis
    proof (cases "String_match eng (ruleId (problems ! x)) rs")
      case None
      with 1(3) True show ?thesis by (simp add: spliceLoop_throw)
    next
      case (Some m)
      show ?thesis
      proof (cases "m \<and> sameStart (problems ! x) rng")
        case hit: True
        from 1(3) have "spliceLoop eng rs rng (take x problems @ drop (Suc x) problems) (Suc x)
                          (afterSplice cur x) True = Inr r"
          by (simp add: spliceLoop_hit [OF True Some hit])
        from 1(1) [OF True Some hit this] cut show ?thesis by blast
      next
        case miss: False
        from 1(3) have "spliceLoop eng rs rng problems (Suc x) cur removed = Inr r"
          by (simp add: spliceLoop_miss [OF True Some miss])
        from 1(2) [OF True Some miss this] show ?thesis .
      qed
    qed
  qed
qed

lemma set_clearOverrides:
  "p \<in> set (clearOverrides xs cur) \<Longrightarrow> \<exists>q \<in> set xs. p = q \<or> p = q\<lparr>overrides := []\<rparr>"
proof (cases cur)
  case None
  assume "p \<in> set (clearOverrides xs cur)"
  with None show ?thesis by (auto simp: clearOverrides_def)
next
  case (Some c)
  assume a: "p \<in> set (clearOverrides xs cur)"
  show ?thesis
  proof (cases "c < length xs")
    case True
    from a Some have "p \<in> set (xs[c := (xs ! c)\<lparr>overrides := []\<rparr>])"
      by (simp add: clearOverrides_def)
    with set_update_subset_insert [of xs c "(xs ! c)\<lparr>overrides := []\<rparr>"]
    have "p = (xs ! c)\<lparr>overrides := []\<rparr> \<or> p \<in> set xs" by auto
    with True show ?thesis using nth_mem [OF True] by blast
  next
    case False
    with a Some have "p \<in> set xs" by (simp add: clearOverrides_def list_update_beyond)
    then show ?thesis by blast
  qed
qed

lemma overridesLoop_provenance:
  "overridesLoop eng problems i removed = Inr r \<Longrightarrow> p \<in> set (fst r) \<Longrightarrow>
   \<exists>q \<in> set problems. p = q \<or> p = q\<lparr>overrides := []\<rparr>"
proof (induction eng problems i removed arbitrary: r rule: overridesLoop.induct)
  case (1 eng problems i removed)
  show ?case
  proof (cases "i < length problems")
    case False
    with 1(3,4) show ?thesis by (auto simp: overridesLoop_end)
  next
    case True
    show ?thesis
    proof (cases "overrides (problems ! i) = []")
      case none: True
      from 1(3) have "overridesLoop eng problems (Suc i) removed = Inr r"
        by (simp add: overridesLoop_skip [OF True none])
      from 1(2) [OF True _ this 1(4)] none show ?thesis by simp
    next
      case ov: False
      show ?thesis
      proof (cases "spliceLoop eng (overridesRegex (overrides (problems ! i)))
                      (anchorOf (problems ! i)) problems 0 (Some i) removed")
        case (Inl e)
        with 1(3) show ?thesis by (simp add: overridesLoop_throw [OF True ov Inl])
      next
        case (Inr spliced)
        from 1(3) have rest: "overridesLoop eng (clearOverrides (fst spliced) (fst (snd spliced)))
                          (Suc i) (snd (snd spliced)) = Inr r"
          by (simp add: overridesLoop_step [OF True ov Inr])
        from 1(1) [OF True _ Inr rest 1(4)] ov
        obtain q where q: "q \<in> set (clearOverrides (fst spliced) (fst (snd spliced)))"
          "p = q \<or> p = q\<lparr>overrides := []\<rparr>"
          by auto
        from set_clearOverrides [OF q(1)] obtain q' where
          q': "q' \<in> set (fst spliced)" "q = q' \<or> q = q'\<lparr>overrides := []\<rparr>"
          by blast
        from q'(1) spliceLoop_subset [OF Inr] have "q' \<in> set problems" by blast
        with q(2) q'(2) show ?thesis by auto
      qed
    qed
  qed
qed

lemma processOverrides_provenance:
  "processOverrides eng problems = Inr out \<Longrightarrow> p \<in> set out \<Longrightarrow>
   \<exists>q \<in> set problems. p = q \<or> p = q\<lparr>overrides := []\<rparr>"
proof (induction eng problems arbitrary: out rule: processOverrides.induct)
  case (1 eng problems)
  show ?case
  proof (cases "overridesLoop eng problems 0 False")
    case (Inl e)
    with 1(2) show ?thesis by (subst (asm) processOverrides.simps) simp
  next
    case (Inr result)
    show ?thesis
    proof (cases "snd result")
      case False
      with 1(2) Inr have "out = fst result"
        by (subst (asm) processOverrides.simps) simp
      with 1(3) overridesLoop_provenance [OF Inr] show ?thesis by simp
    next
      case True
      with 1(2) Inr have "processOverrides eng (fst result) = Inr out"
        by (subst (asm) processOverrides.simps) simp
      from 1(1) [OF Inr True this 1(3)] obtain q where
        q: "q \<in> set (fst result)" "p = q \<or> p = q\<lparr>overrides := []\<rparr>"
        by blast
      from overridesLoop_provenance [OF Inr q(1)] q(2) show ?thesis by auto
    qed
  qed
qed

lemma analyzeText_provenance:
  assumes "analyzeText W doc lang uri = Some (Inr out)" and "p \<in> set out"
  shows "\<exists>rule \<in> set (rulesOf W). \<exists>pat \<in> set (rule_patterns rule). \<exists>index m0.
           producedBy W doc lang rule pat index m0 p"
proof -
  from assms obtain rules found where
    rules: "analysisRules W = Some rules"
    and run: "rulesLoop W rules doc lang uri [] = Some (Inr found)"
    and out: "processOverrides (engine W) found = Inr out"
    by (auto simp: analyzeText_def runAnalysis_def split: option.splits if_splits sum.splits)
  from processOverrides_provenance [OF out assms(2)] obtain q where
    q: "q \<in> set found" "p = q \<or> p = q\<lparr>overrides := []\<rparr>" by blast
  from rulesLoop_provenance [OF run q(1)] obtain rule pat index m0 pushed where
    at: "rule \<in> set rules" "pat \<in> set (rule_patterns rule)"
      "handleMatch W rule pat doc lang index m0 = Some (Inr pushed)" "q \<in> set pushed"
    by auto
  from at(3,4) q(2) have "producedBy W doc lang rule pat index m0 p"
    unfolding producedBy_def by blast
  with at(1,2) rules show ?thesis
    unfolding rulesOf_def by auto
qed

lemma producedBy_live:
  assumes "producedBy W doc lang rule pat index m0 p" and "suppressedFindingRange p = None"
  shows "MatchIsInScope lang (take index doc) (matchNewlineIndex doc index) (pat_scopes pat) \<and>
         ruleId p = rule_id rule \<and> problem_range p = matchRange doc index m0 \<and>
         problem_fixes p =
           rev (ruleFixEdits (engine W) rule (take (length m0) (drop index doc))
                  (matchRange doc index m0)) @
           createActions W (rule_id rule) doc index
             (line (range_start (matchRange doc index m0))) lang
             (MapRuleSeverity (rule_severity rule))"
proof -
  from assms(1) obtain pushed q where
    h: "handleMatch W rule pat doc lang index m0 = Some (Inr pushed)" and q: "q \<in> set pushed"
    and pq: "p = q \<or> p = q\<lparr>overrides := []\<rparr>"
    unfolding producedBy_def by blast
  from pq assms(2) have "suppressedFindingRange q = None" by auto
  from handleMatch_live [OF h q this] pq show ?thesis
    unfolding ruleFixEdits_def by auto
qed

text \<open>
  Claim C2, counterexample. The rule lists the fix \<open>strlcpy\<close> first and \<open>strcpy_s\<close> second;
  in the \<open>fixes\<close> of the problem \<open>strcpy_s\<close> comes first.
\<close>

theorem fixes_surface_in_reverse_order:
  "analyzeText (literalWorker [twoFixRule]) (''strcpy(a,b);'' @ [LF]) ''c'' ''f.c''
   = Some (Inr [(plainProblem ''DS1'' (Range_create 0 0 0 6) [])
                  \<lparr>problem_fixes :=
                     [\<lparr>edit_text = ''strcpy_s'', edit_fixName = Some ''DevSkim: strcpy_s'',
                       edit_range = Range_create 0 0 0 6\<rparr>,
                      \<lparr>edit_text = ''strlcpy'', edit_fixName = Some ''DevSkim: strlcpy'',
                       edit_range = Range_create 0 0 0 6\<rparr>]\<rparr>]) \<and>
   map fix_name (fixItsOf twoFixRule) = [''strlcpy'', ''strcpy_s'']"
  by code_simp

text \<open>
  Claim C2, as amended. Every live problem of the result (one that is not the marker of a
  suppression) was produced by a match of a pattern of a loaded rule, and whichever match
  produced it, its \<open>fixes\<close> are the fix edits of that rule's templates in the reverse of
  the order the rule lists them, templates whose substitution throws being left out,
  followed by the fixes of \<open>createActions\<close>.
\<close>

theorem live_problem_fixes:
  assumes "analyzeText W documentContents langID documentURI = Some (Inr problems)"
    and "p \<in> set problems" and "suppressedFindingRange p = None"
  shows "(\<exists>rule \<in> set (rulesOf W). \<exists>pat \<in> set (rule_patterns rule). \<exists>index m0.
            producedBy W documentContents langID rule pat index m0 p) \<and>
         (\<forall>rule pat index m0.
            producedBy W documentContents langID rule pat index m0 p \<longrightarrow>
              problem_fixes p =
                rev (ruleFixEdits (engine W) rule
                       (take (length m0) (drop index documentContents))
                       (matchRange documentContents index m0)) @
                createActions W (rule_id rule) documentContents index
                  (line (range_start (matchRange documentContents index m0))) langID
                  (MapRuleSeverity (rule_severity rule)))"
proof (intro conjI allI impI)
  show "\<exists>rule \<in> set (rulesOf W). \<exists>pat \<in> set (rule_patterns rule). \<exists>index m0.
            producedBy W documentContents langID rule pat index m0 p"
    using assms(1,2) by (rule analyzeText_provenance)
next
  fix rule pat index m0
  assume pr: "producedBy W documentContents langID rule pat index m0 p"
  from producedBy_live [OF pr assms(3)]
  show "problem_fixes p =
          rev (ruleFixEdits (engine W) rule
                 (take (length m0) (drop index documentContents))
                 (matchRange documentContents index m0)) @
          createActions W (rule_id rule) documentContents index
            (line (range_start (matchRange documentContents index m0))) langID
            (MapRuleSeverity (rule_severity rule))"
    by simp
qed

theorem live_problem_fixes_witness:
  "analyzeText (literalWorker [twoFixRule]) (''strcpy(a,b);'' @ [LF]) ''c'' ''f.c''
   = Some (Inr [(plainProblem ''DS1'' (Range_create 0 0 0 6) [])
                  \<lparr>problem_fixes :=
                     [\<lparr>edit_text = ''strcpy_s'', edit_fixName = Some ''DevSkim: strcpy_s'',
                       edit_range = Range_create 0 0 0 6\<rparr>,
                      \<lparr>edit_text = ''strlcpy'', edit_fixName = Some ''DevSkim: strlcpy'',
                       edit_range = Range_create 0 0 0 6\<rparr>]\<rparr>]) \<and>
   producedBy (literalWorker [twoFixRule]) (''strcpy(a,b);'' @ [LF]) ''c'' twoFixRule
     (plainPattern ''substring'' ''strcpy'' [''code'']) 0 ''strcpy''
     ((plainProblem ''DS1'' (Range_create 0 0 0 6) [])
        \<lparr>problem_fixes :=
           [\<lparr>edit_text = ''strcpy_s'', edit_fixName = Some ''DevSkim: strcpy_s'',
             edit_range = Range_create 0 0 0 6\<rparr>,
            \<lparr>edit_text = ''strlcpy'', edit_fixName = Some ''DevSkim: strlcpy'',
             edit_range = Range_create 0 0 0 6\<rparr>]\<rparr>) \<and>
   problem_fixes
     ((plainProblem ''DS1'' (Range_create 0 0 0 6) [])
        \<lparr>problem_fixes :=
           [\<lparr>edit_text = ''strcpy_s'', edit_fixName = Some ''DevSkim: strcpy_s'',
             edit_range = Range_create 0 0 0 6\<rparr>,
            \<lparr>edit_text = ''strlcpy'', edit_fixName = Some ''DevSkim: strlcpy'',
             edit_range = Range_create 0 0 0 6\<rparr>]\<rparr>)
   = rev (ruleFixEdits (engine (literalWorker [twoFixRule])) twoFixRule
            (take (length ''strcpy'') (drop 0 (''strcpy(a,b);'' @ [LF])))
            (matchRange (''strcpy(a,b);'' @ [LF]) 0 ''strcpy'')) @
     createActions (literalWorker [twoFixRule]) (rule_id twoFixRule) (''strcpy(a,b);'' @ [LF]) 0
       (line (range_start (matchRange (''strcpy(a,b);'' @ [LF]) 0 ''strcpy''))) ''c''
       (MapRuleSeverity (rule_severity twoFixRule))"
proof -
  let ?W = "literalWorker [twoFixRule]"
  let ?doc = "''strcpy(a,b);'' @ [LF]"
  let ?p = "(plainProblem ''DS1'' (Range_create 0 0 0 6) [])
              \<lparr>problem_fixes :=
                 [\<lparr>edit_text = ''strcpy_s'', edit_fixName = Some ''DevSkim: strcpy_s'',
                   edit_range = Range_create 0 0 0 6\<rparr>,
                  \<lparr>edit_text = ''strlcpy'', edit_fixName = Some ''DevSkim: strlcpy'',
                   edit_range = Range_create 0 0 0 6\<rparr>]\<rparr>"
  have run: "analyzeText ?W ?doc ''c'' ''f.c'' = Some (Inr [?p])"
    by code_simp
  have live: "suppressedFindingRange ?p = None"
    by (simp add: plainProblem_def)
  have h: "handleMatch ?W twoFixRule (plainPattern ''substring'' ''strcpy'' [''code''])
             ?doc ''c'' 0 ''strcpy'' = Some (Inr [?p])"
    by code_simp
  have pr: "producedBy ?W ?doc ''c'' twoFixRule
              (plainPattern ''substring'' ''strcpy'' [''code'']) 0 ''strcpy'' ?p"
    unfolding producedBy_def using h by auto
  have mem: "?p \<in> set [?p]" by simp
  from live_problem_fixes [OF run mem live] pr
  have "problem_fixes ?p =
          rev (ruleFixEdits (engine ?W) twoFixRule (take (length ''strcpy'') (drop 0 ?doc))
                 (matchRange ?doc 0 ''strcpy'')) @
          createActions ?W (rule_id twoFixRule) ?doc 0
            (line (range_start (matchRange ?doc 0 ''strcpy''))) ''c''
            (MapRuleSeverity (rule_severity twoFixRule))"
    by blast
  with run pr show ?thesis by blast
qed

section \<open>Exceptions\<close>
















text \<open>
  An override id that is not a regular expression makes \<open>analyzeText\<close> throw as well, as
  soon as a problem carries it: \<open>processOverrides\<close> runs outside any \<open>try\<close>. So does a fix
  template whose regular expression does not construct: \<open>MakeFixes\<close> builds it before its
  \<open>try\<close>.
\<close>

lemma analyzeText_throws_on_malformed_override:
  "analyzeText
     (literalWorker
        [(plainRule ''DS1'' [plainPattern ''substring'' ''strcpy'' [''code'']])
           \<lparr>rule_overrides := Some [''('']\<rparr>])
     (''strcpy(a,b);'' @ [LF]) ''c'' ''f.c''
   = Some (Inl SyntaxError)"
  by code_simp

lemma analyzeText_throws_on_double_quantifier:
  "analyzeText
     (literalWorker
        [(plainRule ''DS1'' [plainPattern ''substring'' ''strcpy'' [''code'']])
           \<lparr>rule_overrides := Some [''C++'']\<rparr>])
     (''strcpy(a,b);'' @ [LF]) ''c'' ''f.c''
   = Some (Inl SyntaxError)"
  by code_simp

lemma analyzeText_throws_on_malformed_fix:
  "analyzeText
     (literalWorker
        [(plainRule ''DS1'' [plainPattern ''substring'' ''strcpy'' [''code'']])
           \<lparr>rule_fixIts :=
              Some [\<lparr>fix_name = ''strlcpy'', fix_pattern = plainPattern ''regex'' ''('' [],
                     fix_replacement = ''strlcpy''\<rparr>]\<rparr>])
     (''strcpy(a,b);'' @ [LF]) ''c'' ''f.c''
   = Some (Inl SyntaxError)"
  by code_simp



















section \<open>Zero-width matches\<close>

text \<open>
  The empty pattern matches the empty string at offset 0 of the document \<open>a\<close>. The cursor
  after the match is \<open>0 + 0\<close>, the next search reports the same match, and the loop pushes
  one more problem at every turn without ever leaving.
\<close>

lemma zero_width_match_repeats:
  "matchLoop (literalWorker [emptyPatternRule]) emptyPatternRule
     (plainPattern ''regex'' [] [''all'']) [] ''a'' ''c'' 0 problems = None"
proof (rule ccontr)
  assume "matchLoop (literalWorker [emptyPatternRule]) emptyPatternRule
     (plainPattern ''regex'' [] [''all'']) [] ''a'' ''c'' 0 problems \<noteq> None"
  then obtain y where y: "matchLoop (literalWorker [emptyPatternRule]) emptyPatternRule
     (plainPattern ''regex'' [] [''all'']) [] ''a'' ''c'' 0 problems = Some y"
    by auto
  have stuck: "\<not> (W = literalWorker [emptyPatternRule] \<and> rule = emptyPatternRule \<and>
            pat = plainPattern ''regex'' [] [''all''] \<and> rx = [] \<and> doc = ''a'' \<and>
            lang = ''c'' \<and> pos = 0)"
    if "matchLoop W rule pat rx doc lang pos ps = Some r" for W rule pat rx doc lang pos ps r
    using that
  proof (induction rule: matchLoop.raw_induct [rotated 1, consumes 1])
    case (1 loop W rule pat rx doc lang pos ps r)
    show ?case
    proof
      assume at: "W = literalWorker [emptyPatternRule] \<and> rule = emptyPatternRule \<and>
            pat = plainPattern ''regex'' [] [''all''] \<and> rx = [] \<and> doc = ''a'' \<and>
            lang = ''c'' \<and> pos = 0"
      have ex: "XRegExp_exec (engine (literalWorker [emptyPatternRule])) ''a'' [] 0 = Some (0, [])"
        by code_simp
      have h: "handleMatch (literalWorker [emptyPatternRule]) emptyPatternRule
                 (plainPattern ''regex'' [] [''all'']) ''a'' ''c'' 0 []
               = Some (Inr [plainProblem ''DS1'' (Range_create 0 0 0 0) []])"
        by code_simp
      from 1(2) at ex h
      have "loop (literalWorker [emptyPatternRule]) emptyPatternRule
              (plainPattern ''regex'' [] [''all'']) [] ''a'' ''c'' 0
              (ps @ [plainProblem ''DS1'' (Range_create 0 0 0 0) []]) = Some r"
        by simp
      from 1(1) [OF this] show False by simp
    qed
  qed
  from stuck [OF y] show False by simp
qed

text \<open>
  Claim C7 fails on the code. With a rule whose pattern is the empty regular expression,
  \<open>analyzeText\<close> on the document \<open>a\<close> never returns: the scan loop of \<open>runAnalysis\<close> sets the
  cursor to \<open>match.index + match[0].length\<close>, which for a zero-width match is the old cursor.
\<close>

theorem zero_width_match_never_returns:
  "analyzeText (literalWorker [emptyPatternRule]) ''a'' ''c'' ''f.c'' = None"
proof -
  have rx: "MakeRegex (engine (literalWorker [emptyPatternRule])) ''regex'' []
              (Some (globalModifiers None)) True = Inr []"
    by code_simp
  have ok: "rule_id emptyPatternRule
              \<notin> set (ignoreRulesList (dswSettings (literalWorker [emptyPatternRule]))) \<and>
         AppliesToLangOrFile ''c'' (rule_appliesTo emptyPatternRule) ''f.c'' \<and>
         RuleSeverityEnabled (dswSettings (literalWorker [emptyPatternRule]))
           (MapRuleSeverity (rule_severity emptyPatternRule))"
    by code_simp
  have pats: "rule_patterns emptyPatternRule = [plainPattern ''regex'' [] [''all'']]"
    by (simp add: emptyPatternRule_def plainRule_def)
  have pat: "pat_type (plainPattern ''regex'' [] [''all'']) = ''regex''"
     "pat_pattern (plainPattern ''regex'' [] [''all'']) = []"
     "pat_modifiers (plainPattern ''regex'' [] [''all'']) = None"
    by (simp_all add: plainPattern_def)
  have run: "runAnalysis (literalWorker [emptyPatternRule]) ''a'' ''c'' ''f.c'' = None"
    unfolding runAnalysis_def
    using ok rx zero_width_match_repeats [of "[]"]
    by (simp add: literalWorker_def [THEN arg_cong, of analysisRules] pats pat)
  have ign: "ignoreFilesList (dswSettings (literalWorker [emptyPatternRule])) = Some []"
    "analysisRules (literalWorker [emptyPatternRule]) = Some [emptyPatternRule]"
    "ignoreFile (literalWorker [emptyPatternRule]) = ignoreFile_spec"
    by (simp_all add: literalWorker_def plainSettings_def)
  show ?thesis
    unfolding analyzeText_def using run by (simp add: ign ignoreFile_spec_def)
qed

section \<open>Scope\<close>

text \<open>
  Whenever the suppression detector reports a suppressed finding and a positive column, the
  loop body pushes the marker, whatever the scopes of the pattern are.
\<close>

lemma marker_pushed_when_suppressed:
  assumes "showFinding (isFindingCommented W index documentContents (rule_id rule)
                          (MapRuleSeverity (rule_severity rule)))"
    and "ruleColumn (isFindingCommented W index documentContents (rule_id rule)
                          (MapRuleSeverity (rule_severity rule))) > 0"
  shows "\<exists>marker. handleMatch W rule pat documentContents langID index m0 = Some (Inr [marker]) \<and>
           severity marker = WarningInfo \<and>
           suppressedFindingRange marker = Some (matchRange documentContents index m0)"
  using assms by (simp add: handleMatch_def Let_def MakeProblem_def)

text \<open>
  Claim C8, counterexample. The rule \<open>DS001\<close> looks for \<open>strcpy\<close> in code only. In the C line
  \<open>// strcpy DevSkim: ignore DS001\<close> the match at offset 3 is inside a line comment, and the
  analysis still returns a WarningInfo problem for it: the marker of the suppression.
\<close>

theorem marker_emitted_out_of_scope:
  "analyzeText
     (literalWorker [plainRule ''DS001'' [plainPattern ''substring'' ''strcpy'' [''code'']]])
     (''// strcpy DevSkim: ignore DS001'' @ [LF]) ''c'' ''f.c''
   = Some (Inr [(plainProblem ''DS001'' (Range_create 0 26 0 31) [])
                  \<lparr>severity := WarningInfo,
                   suppressedFindingRange := Some (Range_create 0 3 0 9)\<rparr>]) \<and>
   IsFindingInComment ''c'' (take 3 (''// strcpy DevSkim: ignore DS001'' @ [LF])) (-1) False"
  by code_simp

lemma no_linebreak_no_LF: "countLinebreaks s = 0 \<Longrightarrow> LF \<notin> set s"
  by (induction s rule: countLinebreaks.induct) (auto split: if_splits)

lemma lastIndexOfFrom_absent: "c \<notin> set s \<Longrightarrow> lastIndexOfFrom [c] s i = -1"
  by (induction s arbitrary: i) (auto simp: Let_def)

lemma matchNewlineIndex_lastIndexOf:
  "matchNewlineIndex doc index = lastIndexOf (take index doc) [LF]"
  using no_linebreak_no_LF [of "take index doc"]
  by (simp add: matchNewlineIndex_def GetLineNumber_def lastIndexOf_def lastIndexOfFrom_absent)

lemma MatchIsInScope_code:
  "set scopes = {''code''} \<Longrightarrow>
   MatchIsInScope lang d n scopes = (\<not> IsFindingInComment lang d n False)"
  by (auto simp: MatchIsInScope_def Let_def list_ex_iff)

lemma MatchIsInScope_comment:
  "set scopes = {''comment''} \<Longrightarrow>
   MatchIsInScope lang d n scopes = IsFindingInComment lang d n False"
  by (auto simp: MatchIsInScope_def Let_def list_ex_iff)

text \<open>
  Claim C8, as amended. Every live problem of the result (one that is not the marker of a
  suppression) was produced by a match of a pattern of a loaded rule, and whichever match
  produced it: when the scopes of the pattern are \<open>{code}\<close>, \<open>IsFindingInComment\<close> is false
  on the document up to the match, the last line feed before it being the newline index;
  when they are \<open>{comment}\<close>, it is true. Markers are pushed without a test of the scope.
\<close>

theorem live_problems_in_scope:
  assumes "analyzeText W documentContents langID documentURI = Some (Inr problems)"
    and "p \<in> set problems" and "suppressedFindingRange p = None"
  shows "(\<exists>rule \<in> set (rulesOf W). \<exists>pat \<in> set (rule_patterns rule). \<exists>index m0.
            producedBy W documentContents langID rule pat index m0 p) \<and>
         (\<forall>rule pat index m0.
            producedBy W documentContents langID rule pat index m0 p \<longrightarrow>
              (set (pat_scopes pat) = {''code''} \<longrightarrow>
                 \<not> IsFindingInComment langID (take index documentContents)
                     (lastIndexOf (take index documentContents) [LF]) False) \<and>
              (set (pat_scopes pat) = {''comment''} \<longrightarrow>
                 IsFindingInComment langID (take index documentContents)
                   (lastIndexOf (take index documentContents) [LF]) False))"
proof (intro conjI allI impI)
  show "\<exists>rule \<in> set (rulesOf W). \<exists>pat \<in> set (rule_patterns rule). \<exists>index m0.
            producedBy W documentContents langID rule pat index m0 p"
    using assms(1,2) by (rule analyzeText_provenance)
next
  fix rule pat index m0
  assume pr: "producedBy W documentContents langID rule pat index m0 p"
    and sc: "set (pat_scopes pat) = {''code''}"
  from producedBy_live [OF pr assms(3)] sc
  show "\<not> IsFindingInComment langID (take index documentContents)
            (lastIndexOf (take index documentContents) [LF]) False"
    by (simp add: MatchIsInScope_code matchNewlineIndex_lastIndexOf)
next
  fix rule pat index m0
  assume pr: "producedBy W documentContents langID rule pat index m0 p"
    and sc: "set (pat_scopes pat) = {''comment''}"
  from producedBy_live [OF pr assms(3)] sc
  show "IsFindingInComment langID (take index documentContents)
            (lastIndexOf (take index documentContents) [LF]) False"
    by (simp add: MatchIsInScope_comment matchNewlineIndex_lastIndexOf)
qed

theorem live_problems_in_scope_witness:
  "analyzeText
     (literalWorker [plainRule ''DS1'' [plainPattern ''substring'' ''strcpy'' [''code'']]])
     (''x = strcpy(a,b);'' @ [LF]) ''c'' ''f.c''
   = Some (Inr [plainProblem ''DS1'' (Range_create 0 4 0 10) []]) \<and>
   suppressedFindingRange (plainProblem ''DS1'' (Range_create 0 4 0 10) []) = None \<and>
   producedBy
     (literalWorker [plainRule ''DS1'' [plainPattern ''substring'' ''strcpy'' [''code'']]])
     (''x = strcpy(a,b);'' @ [LF]) ''c''
     (plainRule ''DS1'' [plainPattern ''substring'' ''strcpy'' [''code'']])
     (plainPattern ''substring'' ''strcpy'' [''code'']) 4 ''strcpy''
     (plainProblem ''DS1'' (Range_create 0 4 0 10) []) \<and>
   set (pat_scopes (plainPattern ''substring'' ''strcpy'' [''code''])) = {''code''} \<and>
   \<not> IsFindingInComment ''c'' (take 4 (''x = strcpy(a,b);'' @ [LF]))
       (lastIndexOf (take 4 (''x = strcpy(a,b);'' @ [LF])) [LF]) False"
proof -
  let ?W = "literalWorker [plainRule ''DS1'' [plainPattern ''substring'' ''strcpy'' [''code'']]]"
  let ?doc = "''x = strcpy(a,b);'' @ [LF]"
  let ?p = "plainProblem ''DS1'' (Range_create 0 4 0 10) []"
  have run: "analyzeText ?W ?doc ''c'' ''f.c'' = Some (Inr [?p])"
    by code_simp
  have live: "suppressedFindingRange ?p = None"
    by (simp add: plainProblem_def)
  have h: "handleMatch ?W (plainRule ''DS1'' [plainPattern ''substring'' ''strcpy'' [''code'']])
             (plainPattern ''substring'' ''strcpy'' [''code'']) ?doc ''c'' 4 ''strcpy''
           = Some (Inr [?p])"
    by code_simp
  have pr: "producedBy ?W ?doc ''c''
              (plainRule ''DS1'' [plainPattern ''substring'' ''strcpy'' [''code'']])
              (plainPattern ''substring'' ''strcpy'' [''code'']) 4 ''strcpy'' ?p"
    unfolding producedBy_def using h by auto
  have sc: "set (pat_scopes (plainPattern ''substring'' ''strcpy'' [''code''])) = {''code''}"
    by (simp add: plainPattern_def)
  have mem: "?p \<in> set [?p]" by simp
  from live_problems_in_scope [OF run mem live] pr sc
  have "\<not> IsFindingInComment ''c'' (take 4 ?doc) (lastIndexOf (take 4 ?doc) [LF]) False"
    by blast
  with run live pr sc show ?thesis by blast
qed

section \<open>The cache of code actions\<close>

lemma ordinalLoop_unused:
  "fmlookup edits (key @ toString10 (ordinalLoop edits key x)) = None"
  by (induction edits key x rule: ordinalLoop.induct) (subst ordinalLoop.simps, auto)

lemma ordinalLoop_least:
  "x \<le> n \<Longrightarrow> n < ordinalLoop edits key x \<Longrightarrow> fmlookup edits (key @ toString10 n) \<noteq> None"
proof (induction edits key x rule: ordinalLoop.induct)
  case (1 edits key x)
  show ?case
  proof (cases "fmlookup edits (key @ toString10 x) \<noteq> None")
    case False
    with 1(3) show ?thesis by (subst (asm) ordinalLoop.simps) (use 1(2) in simp)
  next
    case True
    then have eq: "ordinalLoop edits key x = ordinalLoop edits key (Suc x)"
      by (subst ordinalLoop.simps) simp
    show ?thesis
    proof (cases "n = x")
      case True
      with \<open>fmlookup edits (key @ toString10 x) \<noteq> None\<close> show ?thesis by simp
    next
      case False
      with 1(2) have "Suc x \<le> n" by simp
      from 1(1) [OF True this] 1(3) show ?thesis unfolding eq by simp
    qed
  qed
qed

text \<open>
  Claim C10. Called with no fix, or with a rule id that is missing or empty,
  \<open>recordCodeAction\<close> returns the cache as it was. Otherwise there are an ordinal \<open>x\<close> and an
  entry made of the given fix, rule id and document version such that the key
  \<open>computeKey(range, diagnosticCode)\<close> followed by \<open>x\<close> was unused in the edits of the document,
  every smaller ordinal was in use, and the new cache is the old one with that entry stored
  under that key in the edits of the document: one key is added to the edits of the document,
  the entries already there are unchanged (the key was unused), and so are the edits of
  every other document.
\<close>

theorem recordCodeAction_frame:
  "(fix = None \<or> ruleID = None \<or> ruleID = Some [] \<longrightarrow>
      recordCodeAction computeKey codeActions documentURI version rng diagnosticCode fix ruleID
        = codeActions) \<and>
   (\<forall>f rid. fix = Some f \<and> ruleID = Some rid \<and> rid \<noteq> [] \<longrightarrow>
      (\<exists>x entry.
         fmlookup (editsOf codeActions documentURI)
           (computeKey rng diagnosticCode @ toString10 x) = None \<and>
         (\<forall>n < x. fmlookup (editsOf codeActions documentURI)
                     (computeKey rng diagnosticCode @ toString10 n) \<noteq> None) \<and>
         edit entry = f \<and> fix_ruleId entry = rid \<and> documentVersion entry = version \<and>
         recordCodeAction computeKey codeActions documentURI version rng diagnosticCode fix ruleID
           = fmupd documentURI
               (fmupd (computeKey rng diagnosticCode @ toString10 x) entry
                  (editsOf codeActions documentURI))
               codeActions))"
proof (intro conjI allI impI)
  assume "fix = None \<or> ruleID = None \<or> ruleID = Some []"
  then show "recordCodeAction computeKey codeActions documentURI version rng diagnosticCode fix ruleID
        = codeActions"
    by (auto simp: recordCodeAction_def split: option.splits)
next
  fix f rid
  assume a: "fix = Some f \<and> ruleID = Some rid \<and> rid \<noteq> []"
  define edits where "edits = editsOf codeActions documentURI"
  define key where "key = computeKey rng diagnosticCode"
  define x where "x = ordinalLoop edits key 0"
  define entry where "entry =
     \<lparr>label = (case edit_fixName f of
                  None \<Rightarrow> ''Fix this '' @ rid @ '' problem''
                | Some n \<Rightarrow> if length n > 0 then n else ''Fix this '' @ rid @ '' problem''),
      documentVersion = version, fix_ruleId = rid, edit = f\<rparr>"
  have 1: "fmlookup edits (key @ toString10 x) = None"
    unfolding x_def by (rule ordinalLoop_unused)
  have 2: "\<forall>n < x. fmlookup edits (key @ toString10 n) \<noteq> None"
    unfolding x_def using ordinalLoop_least [of 0 _ edits key] by simp
  have 3: "recordCodeAction computeKey codeActions documentURI version rng diagnosticCode fix ruleID
           = fmupd documentURI (fmupd (key @ toString10 x) entry edits) codeActions"
    using a by (simp add: recordCodeAction_def Let_def edits_def key_def x_def entry_def)
  have 4: "edit entry = f \<and> fix_ruleId entry = rid \<and> documentVersion entry = version"
    by (simp add: entry_def)
  from 1 2 3 4 show "\<exists>x entry.
         fmlookup (editsOf codeActions documentURI)
           (computeKey rng diagnosticCode @ toString10 x) = None \<and>
         (\<forall>n < x. fmlookup (editsOf codeActions documentURI)
                     (computeKey rng diagnosticCode @ toString10 n) \<noteq> None) \<and>
         edit entry = f \<and> fix_ruleId entry = rid \<and> documentVersion entry = version \<and>
         recordCodeAction computeKey codeActions documentURI version rng diagnosticCode fix ruleID
           = fmupd documentURI
               (fmupd (computeKey rng diagnosticCode @ toString10 x) entry
                  (editsOf codeActions documentURI))
               codeActions"
    unfolding edits_def key_def by blast
qed

text \<open>Recording into the empty cache uses ordinal 0, and recording the same diagnostic
  again finds ordinal 1.\<close>

lemma toString10_0: "toString10 0 = ''0''"
  by code_simp

lemma toString10_1: "toString10 (Suc 0) = ''1''"
  by code_simp

lemma first_action_at_ordinal_0:
  "recordCodeAction plainKey fmempty ''f.c'' 1 (edit_range strlcpyEdit) ''DS1''
     (Some strlcpyEdit) (Some ''DS1'') = oneAction"
proof -
  have "ordinalLoop fmempty ''DS1:'' 0 = 0"
    by (subst ordinalLoop.simps) simp
  then show ?thesis
    by (simp add: recordCodeAction_def editsOf_def plainKey_def oneAction_def Let_def
          strlcpyEdit_def toString10_0)
qed

lemma second_action_at_ordinal_1:
  "ordinalLoop (editsOf oneAction ''f.c'') (plainKey (edit_range strlcpyEdit) ''DS1'') 0 = 1"
proof -
  have e: "editsOf oneAction ''f.c'' =
             fmupd ''DS1:0''
               \<lparr>label = ''DevSkim: strlcpy'', documentVersion = 1, fix_ruleId = ''DS1'',
                edit = strlcpyEdit\<rparr> fmempty"
    by (simp add: editsOf_def oneAction_def)
  have "ordinalLoop (editsOf oneAction ''f.c'') ''DS1:'' (Suc 0) = Suc 0"
    unfolding e by (subst ordinalLoop.simps) (simp add: toString10_1)
  moreover have "ordinalLoop (editsOf oneAction ''f.c'') ''DS1:'' 0
                   = ordinalLoop (editsOf oneAction ''f.c'') ''DS1:'' (Suc 0)"
    unfolding e by (subst ordinalLoop.simps) (simp add: toString10_0)
  ultimately show ?thesis by (simp add: plainKey_def)
qed

theorem recordCodeAction_frame_witness:
  "recordCodeAction plainKey oneAction ''f.c'' 2 (edit_range strlcpyEdit) ''DS1'' None (Some ''DS1'')
     = oneAction \<and>
   (\<exists>x entry.
      fmlookup (editsOf oneAction ''f.c'')
        (plainKey (edit_range strlcpyEdit) ''DS1'' @ toString10 x) = None \<and>
      (\<forall>n < x. fmlookup (editsOf oneAction ''f.c'')
                  (plainKey (edit_range strlcpyEdit) ''DS1'' @ toString10 n) \<noteq> None) \<and>
      edit entry = strlcpyEdit \<and> fix_ruleId entry = ''DS1'' \<and> documentVersion entry = 2 \<and>
      recordCodeAction plainKey oneAction ''f.c'' 2 (edit_range strlcpyEdit) ''DS1''
        (Some strlcpyEdit) (Some ''DS1'')
        = fmupd ''f.c''
            (fmupd (plainKey (edit_range strlcpyEdit) ''DS1'' @ toString10 x) entry
               (editsOf oneAction ''f.c''))
            oneAction)"
proof -
  have none: "(None :: DevSkimAutoFixEdit option) = None \<or> Some ''DS1'' = None \<or>
              Some ''DS1'' = Some []"
    by simp
  have some: "Some strlcpyEdit = Some strlcpyEdit \<and> Some ''DS1'' = Some ''DS1'' \<and> ''DS1'' \<noteq> []"
    by simp
  from recordCodeAction_frame
         [of None "Some ''DS1''" plainKey oneAction "''f.c''" 2 "edit_range strlcpyEdit" "''DS1''"]
       none
  have a: "recordCodeAction plainKey oneAction ''f.c'' 2 (edit_range strlcpyEdit) ''DS1''
             None (Some ''DS1'') = oneAction"
    by blast
  from recordCodeAction_frame
         [of "Some strlcpyEdit" "Some ''DS1''" plainKey oneAction "''f.c''" 2
             "edit_range strlcpyEdit" "''DS1''"]
       some
  have b: "\<exists>x entry.
      fmlookup (editsOf oneAction ''f.c'')
        (plainKey (edit_range strlcpyEdit) ''DS1'' @ toString10 x) = None \<and>
      (\<forall>n < x. fmlookup (editsOf oneAction ''f.c'')
                  (plainKey (edit_range strlcpyEdit) ''DS1'' @ toString10 n) \<noteq> None) \<and>
      edit entry = strlcpyEdit \<and> fix_ruleId entry = ''DS1'' \<and> documentVersion entry = 2 \<and>
      recordCodeAction plainKey oneAction ''f.c'' 2 (edit_range strlcpyEdit) ''DS1''
        (Some strlcpyEdit) (Some ''DS1'')
        = fmupd ''f.c''
            (fmupd (plainKey (edit_range strlcpyEdit) ''DS1'' @ toString10 x) entry
               (editsOf oneAction ''f.c''))
            oneAction"
    by blast
  from a b show ?thesis by blast
qed

end
